theory Spec2Isabelle
  imports Main "HOL-Library.Sublist"
begin

section \<open>JavaScript strings\<close>

text \<open>
  The action is a Node.js script (\<^verbatim>\<open>main.js\<close>). Its strings are modelled as
  \<^typ>\<open>string\<close>, a character being read as one of the code points U+0000 to U+00FF.
  \<^verbatim>\<open>String.prototype.trim\<close> removes white space and line terminators from both ends; in
  this range these are TAB, LF, VT, FF, CR, SPACE and NO-BREAK SPACE.
  \<^verbatim>\<open>String.prototype.toLowerCase\<close> maps A to Z and the Latin-1 capitals (U+00C0 to
  U+00DE without the multiplication sign U+00D7) to the letter 32 code points later.
\<close>

definition isWhiteSpace :: "char \<Rightarrow> bool" where
  "isWhiteSpace c = (of_char c \<in> {9, 10, 11, 12, 13, 32, 160 :: nat})"

definition trim :: "string \<Rightarrow> string" where
  "trim s = rev (dropWhile isWhiteSpace (rev (dropWhile isWhiteSpace s)))"

definition isUpperChar :: "char \<Rightarrow> bool" where
  "isUpperChar c = (let n = of_char c :: nat in
     (65 \<le> n \<and> n \<le> 90) \<or> (192 \<le> n \<and> n \<le> 222 \<and> n \<noteq> 215))"

text \<open>Adding 32 to the code of a capital letter sets the bit of weight 32, which is clear there.\<close>

definition toLowerChar :: "char \<Rightarrow> char" where
  "toLowerChar c =
     (if isUpperChar c
      then (case c of Char b0 b1 b2 b3 b4 b5 b6 b7 \<Rightarrow> Char b0 b1 b2 b3 b4 True b6 b7)
      else c)"

definition toLowerCase :: "string \<Rightarrow> string" where
  "toLowerCase s = map toLowerChar s"

text \<open>
  \<^verbatim>\<open>s.replace(pattern, replacement)\<close> with a string pattern replaces the first occurrence
  only. The replacement text is expanded first (GetSubstitution): \<^verbatim>\<open>$$\<close> is a dollar sign,
  \<^verbatim>\<open>$&\<close> the matched text, \<^verbatim>\<open>$`\<close> the text before the match and \<^verbatim>\<open>$'\<close> the text after
  it. A string pattern has no capture groups, so \<^verbatim>\<open>$1\<close> and \<^verbatim>\<open>$<name>\<close> stay as they
  are written.
\<close>

fun indexOf :: "string \<Rightarrow> string \<Rightarrow> nat option" where
  "indexOf [] pat = (if pat = [] then Some 0 else None)"
| "indexOf (c # cs) pat =
     (if prefix pat (c # cs) then Some 0 else map_option Suc (indexOf cs pat))"

fun getSubstitution :: "string \<Rightarrow> string \<Rightarrow> string \<Rightarrow> string \<Rightarrow> string" where
  "getSubstitution matched pre post [] = []"
| "getSubstitution matched pre post [c] = [c]"
| "getSubstitution matched pre post (c # d # r) =
     (if c \<noteq> CHR ''$'' then c # getSubstitution matched pre post (d # r)
      else if d = CHR ''$'' then CHR ''$'' # getSubstitution matched pre post r
      else if d = CHR ''&'' then matched @ getSubstitution matched pre post r
      else if d = CHR ''`'' then pre @ getSubstitution matched pre post r
      else if d = CHR 0x27 then post @ getSubstitution matched pre post r
      else c # getSubstitution matched pre post (d # r))"

definition replace :: "string \<Rightarrow> string \<Rightarrow> string \<Rightarrow> string" where
  "replace s pat rep =
     (case indexOf s pat of
        None \<Rightarrow> s
      | Some i \<Rightarrow>
          let pre = take i s; post = drop (i + length pat) s
          in pre @ getSubstitution pat pre post rep @ post)"

section \<open>JavaScript numbers\<close>

text \<open>
  A Number is a double. The script only produces integral values, NaN and the infinities:
  \<open>Num n\<close> is the double with the integer value \<open>n\<close> (the two zeros are not told
  apart; they add and print alike). \<open>toNumber\<close> rounds a mathematical integer to the
  nearest double, ties to the even significand, and to an infinity from
  \<open>2^1024 - 2^970\<close> on.
\<close>

datatype number = Num int | PosInf | NegInf | NaN

fun bits :: "nat \<Rightarrow> nat" where
  "bits n = (if n = 0 then 0 else Suc (bits (n div 2)))"

declare bits.simps [simp del]

definition roundToDouble :: "nat \<Rightarrow> nat" where
  "roundToDouble n =
     (if n < 2 ^ 53 then n
      else let e = bits n - 53; q = n div 2 ^ e; r = n mod 2 ^ e; h = 2 ^ (e - 1)
           in (if r < h then q else if h < r then q + 1 else if even q then q else q + 1) * 2 ^ e)"

definition toNumber :: "int \<Rightarrow> number" where
  "toNumber x =
     (let m = roundToDouble (nat \<bar>x\<bar>)
      in if 2 ^ 1024 \<le> m then (if x < 0 then NegInf else PosInf)
         else Num (if x < 0 then - int m else int m))"

fun num_add :: "number \<Rightarrow> number \<Rightarrow> number" where
  "num_add (Num a) (Num b) = toNumber (a + b)"
| "num_add NaN y = NaN"
| "num_add x NaN = NaN"
| "num_add PosInf NegInf = NaN"
| "num_add NegInf PosInf = NaN"
| "num_add PosInf y = PosInf"
| "num_add NegInf y = NegInf"
| "num_add (Num a) y = y"

text \<open>
  \<^verbatim>\<open>parseInt(value)\<close> without a radix: the argument is converted to a string
  (\<^verbatim>\<open>undefined\<close> to the text "undefined"), leading white space and one sign are removed,
  a prefix \<^verbatim>\<open>0x\<close> or \<^verbatim>\<open>0X\<close> selects radix 16, and the longest prefix of digits of the
  radix is the value; without such a digit the result is NaN.
\<close>

definition digitValue :: "char \<Rightarrow> nat" where
  "digitValue c = (let n = of_char c :: nat in
     if 48 \<le> n \<and> n \<le> 57 then n - 48
     else if 97 \<le> n \<and> n \<le> 122 then n - 87
     else if 65 \<le> n \<and> n \<le> 90 then n - 55
     else 36)"

definition radixValue :: "nat \<Rightarrow> string \<Rightarrow> nat" where
  "radixValue R Z = foldl (\<lambda>a c. a * R + digitValue c) 0 Z"

definition parseInt :: "string option \<Rightarrow> number" where
  "parseInt v =
     (let inputString = (case v of None \<Rightarrow> ''undefined'' | Some s \<Rightarrow> s);
          S = dropWhile isWhiteSpace inputString;
          negative = (S \<noteq> [] \<and> hd S = CHR ''-'');
          S1 = (if S \<noteq> [] \<and> (hd S = CHR ''+'' \<or> hd S = CHR ''-'') then tl S else S);
          hex = (prefix ''0x'' S1 \<or> prefix ''0X'' S1);
          R = (if hex then 16 else 10);
          S2 = (if hex then drop 2 S1 else S1);
          Z = takeWhile (\<lambda>c. digitValue c < R) S2
      in if Z = [] then NaN
         else toNumber (if negative then - int (radixValue R Z) else int (radixValue R Z)))"

text \<open>
  \<^verbatim>\<open>Number.prototype.toString()\<close>: the shortest decimal digit string that rounds back to
  the double, written in full below \<open>10^21\<close> and with an exponent from there on.
  \<open>shortest x e\<close> tries the decimal prefixes of \<open>x\<close> from the shortest one, rounded
  down and up at the digit of weight \<open>10^e\<close>.
\<close>

definition digitChar :: "nat \<Rightarrow> char" where
  "digitChar d = ''0123456789'' ! d"

fun digitsOf :: "nat \<Rightarrow> string" where
  "digitsOf n = (if n < 10 then [digitChar n] else digitsOf (n div 10) @ [digitChar (n mod 10)])"

declare digitsOf.simps [simp del]

fun shortest :: "nat \<Rightarrow> nat \<Rightarrow> nat" where
  "shortest x 0 = x"
| "shortest x (Suc e) =
     (let p = 10 ^ Suc e; lo = (x div p) * p; hi = lo + p;
          okl = (0 < lo \<and> roundToDouble lo = x); okh = (roundToDouble hi = x)
      in if okl \<and> okh then
           (if x - lo < hi - x then lo else if hi - x < x - lo then hi
            else if even (x div p) then lo else hi)
         else if okl then lo
         else if okh then hi
         else shortest x e)"

definition stripZeros :: "string \<Rightarrow> string" where
  "stripZeros ds = rev (dropWhile (\<lambda>c. c = CHR ''0'') (rev ds))"

definition natToString :: "nat \<Rightarrow> string" where
  "natToString x =
     (if x = 0 then ''0''
      else let ds = digitsOf (shortest x (length (digitsOf x) - 1)); n = length ds
           in if n \<le> 21 then ds
              else let s = stripZeros ds
                   in (if length s = 1 then s else hd s # CHR ''.'' # tl s)
                      @ ''e+'' @ digitsOf (n - 1))"

fun toString :: "number \<Rightarrow> string" where
  "toString NaN = ''NaN''"
| "toString PosInf = ''Infinity''"
| "toString NegInf = ''-Infinity''"
| "toString (Num n) = (if n < 0 then CHR ''-'' # natToString (nat (- n)) else natToString (nat n))"

section \<open>The platform: regular expressions, semver and the GitHub client\<close>

text \<open>
  The script builds regular expressions from its inputs, parses the version with the
  \<^verbatim>\<open>semver\<close> package and talks to GitHub through \<^verbatim>\<open>@actions/github\<close>. None of these is
  code of the repository, so they are parameters of the model, collected in the record
  \<open>env\<close>, and every theorem about \<open>run\<close> holds for all of them.

  \<open>RegExp env source flags\<close> stands for \<^verbatim>\<open>new RegExp(source, flags)\<close>: a SyntaxError, or
  the function \<^verbatim>\<open>exec\<close> of the new object. The script calls \<^verbatim>\<open>exec\<close> of the version
  pattern once, and the tag pattern has no flags, so no \<^verbatim>\<open>lastIndex\<close> is carried from one
  call to the next. Of the result array of \<^verbatim>\<open>exec\<close> the model keeps the matched text and
  \<^verbatim>\<open>groups\<close>, which is \<^verbatim>\<open>undefined\<close> for a pattern without named groups and otherwise
  has one property for each named group, \<^verbatim>\<open>undefined\<close> where the group took no part.
\<close>

type_synonym error = string

record exec_result =
  matched :: string
  groups :: "(string \<times> string option) list option"

type_synonym regexp = "string \<Rightarrow> exec_result option"

definition group :: "(string \<times> string option) list \<Rightarrow> string \<Rightarrow> string option" where
  "group g n = (case map_of g n of None \<Rightarrow> None | Some v \<Rightarrow> v)"

text \<open>The object \<^verbatim>\<open>semver.parse\<close> returns; \<^verbatim>\<open>null\<close> is \<open>None\<close>.\<close>

datatype prerelease_id = NumId nat | StrId string

record semver =
  major :: nat
  minor :: nat
  patch :: nat
  prerelease :: "prerelease_id list"
  build :: "string list"

text \<open>An item of the tag list (\<^verbatim>\<open>name\<close>, \<^verbatim>\<open>commit.sha\<close>) and the comparison of two commits.\<close>

record repo_tag =
  name :: string
  commit_sha :: string

record user =
  login :: string

record commit =
  message :: string
  author :: "user option"

record comparison =
  commits :: "commit option list option"

text \<open>The parameters and the answers of the three calls that create something.\<close>

record tag_params =
  tp_tag :: string
  tp_message :: string
  tp_object :: string
  tp_type :: string

record tag_data =
  td_tag :: string
  td_sha :: string

record ref_data =
  rd_ref :: string
  rd_url :: string

record release_params =
  rp_name :: string
  rp_body :: string
  rp_tag_name :: string
  rp_draft :: bool
  rp_prerelease :: bool

record release_data =
  rl_url :: string

datatype api_call =
    ListTags nat
  | CompareCommits string string
  | CreateTag tag_params
  | CreateRef string string
  | CreateRelease release_params

text \<open>
  The inputs of the action (\<^verbatim>\<open>core.getInput\<close>), the file system, the context of the
  workflow run and the answers of the platform. \<^verbatim>\<open>context.repo\<close> goes into every call
  unchanged and is left out.
\<close>

record env =
  api_token :: string
  source_file :: string
  tag_format :: string
  version_pattern :: string
  existsSync :: "string \<Rightarrow> bool"
  readFileSync :: "string \<Rightarrow> error + string"
  RegExp :: "string \<Rightarrow> string \<Rightarrow> error + regexp"
  semver_parse :: "string \<Rightarrow> semver option"
  context_sha :: "string option"
  GitHub :: "string \<Rightarrow> error option"
  listTags :: "nat \<Rightarrow> error + repo_tag list"
  compareCommits :: "string \<Rightarrow> string \<Rightarrow> error + comparison"
  createTag :: "tag_params \<Rightarrow> error + tag_data"
  createRef :: "string \<Rightarrow> string \<Rightarrow> error + ref_data"
  createRelease :: "release_params \<Rightarrow> error + release_data"

section \<open>The functions of main.js\<close>

definition getRepoTags :: "env \<Rightarrow> error + repo_tag list" where
  "getRepoTags env =
     (case listTags env 100 of
        Inl e \<Rightarrow> Inl (''could not fetch repository tags: '' @ e)
      | Inr tags \<Rightarrow> Inr tags)"

record matching_tag =
  mt_name :: string
  mt_sha :: string
  mt_match :: exec_result

fun searchMatchingTag :: "repo_tag list \<Rightarrow> regexp \<Rightarrow> matching_tag option" where
  "searchMatchingTag [] tagRegExp = None"
| "searchMatchingTag (tag # tags) tagRegExp =
     (case tagRegExp (toLowerCase (trim (name tag))) of
        Some m \<Rightarrow> Some \<lparr>mt_name = name tag, mt_sha = commit_sha tag, mt_match = m\<rparr>
      | None \<Rightarrow> searchMatchingTag tags tagRegExp)"

text \<open>
  \<^verbatim>\<open>!x\<close> for a string that may be \<^verbatim>\<open>null\<close> or \<^verbatim>\<open>undefined\<close>: the empty string is
  falsy as well.
\<close>

definition falsy :: "string option \<Rightarrow> bool" where
  "falsy x = (x = None \<or> x = Some [])"

definition newline :: string where
  "newline = [CHR 0x0A]"

fun appendCommits :: "commit option list \<Rightarrow> string \<Rightarrow> string" where
  "appendCommits [] msg = msg"
| "appendCommits (None # cs) msg = appendCommits cs msg"
| "appendCommits (Some c # cs) msg =
     appendCommits cs
       (msg @ newline @ ''* '' @ message c @
        (case author c of
           None \<Rightarrow> []
         | Some a \<Rightarrow> if login a = [] then [] else '' ('' @ login a @ '')''))"

text \<open>The result comes with the calls made to GitHub.\<close>

definition getTagMessage ::
  "env \<Rightarrow> string option \<Rightarrow> string option \<Rightarrow> api_call list \<times> (error + string)" where
  "getTagMessage env from to =
     (if falsy from \<or> falsy to then ([], Inr ''Initial tag'')
      else case compareCommits env (the from) (the to) of
        Inl e \<Rightarrow> ([CompareCommits (the from) (the to)], Inl (''could not generate changelog: '' @ e))
      | Inr changelog \<Rightarrow>
          ([CompareCommits (the from) (the to)],
           case commits changelog of
             None \<Rightarrow> Inr ''Initial tag''
           | Some cs \<Rightarrow>
               if length cs < 1 then Inr ''Initial tag''
               else Inr (trim (appendCommits cs []))))"

subsection \<open>run\<close>

text \<open>
  How a run ends: \<^verbatim>\<open>core.setFailed\<close> with a message of the script, an exception that
  reaches the \<^verbatim>\<open>catch\<close> of the last line, one of the three successful early returns, or
  the end of the function. The result keeps the outputs set and the calls made; log lines
  are left out.
\<close>

datatype exit =
    Failed string
  | Thrown error
  | AbortAllZeros
  | AbortTagAtCommit
  | AbortTagMatches
  | Completed

datatype outval = Str string | Number number

record result =
  exit :: exit
  outputs :: "(string \<times> outval) list"
  calls :: "api_call list"

definition tagPattern :: "string \<Rightarrow> string \<Rightarrow> string" where
  "tagPattern tagFormat version =
     toLowerCase
       (replace (replace (''^'' @ tagFormat @ ''$'') ''{version}'' version)
          ''{revision}'' ''(?<revision>[0-9]+)'')"

definition tagRevision :: "matching_tag option \<Rightarrow> number" where
  "tagRevision matchingTag =
     (case matchingTag of
        None \<Rightarrow> Num 1
      | Some m \<Rightarrow>
          (case groups (mt_match m) of
             None \<Rightarrow> Num 1
           | Some g \<Rightarrow> num_add (parseInt (group g ''revision'')) (Num 1)))"

definition tagName :: "string \<Rightarrow> string \<Rightarrow> number \<Rightarrow> string" where
  "tagName tagFormat version revision =
     replace (replace tagFormat ''{version}'' version) ''{revision}'' (toString revision)"

definition changelogFrom :: "repo_tag list \<Rightarrow> string option" where
  "changelogFrom tags = (case tags of [] \<Rightarrow> None | t # ts \<Rightarrow> Some (name t))"

definition prereleaseFlag :: "semver option \<Rightarrow> bool" where
  "prereleaseFlag parsedVersion =
     (case parsedVersion of
        None \<Rightarrow> False
      | Some v \<Rightarrow> major v = 0 \<or> 0 < length (prerelease v))"

text \<open>
  Lines 136 to 172: the tag object, the reference and the release, from the result of the
  changelog builder and the calls it made.
\<close>

definition create ::
  "env \<Rightarrow> string \<Rightarrow> string \<Rightarrow> number \<Rightarrow> string \<Rightarrow> api_call list \<times> (error + string) \<Rightarrow> result" where
  "create env version tName tRevision sha changelog =
     (let out0 = [(''version'', Str version)];
          calls1 = ListTags 100 # fst changelog
      in case snd changelog of
        Inl e \<Rightarrow> \<lparr>exit = Thrown e, outputs = out0, calls = calls1\<rparr>
      | Inr tagMessage \<Rightarrow>
         (let p = \<lparr>tp_tag = tName, tp_message = tName @ newline @ newline @ tagMessage,
                   tp_object = sha, tp_type = ''commit''\<rparr>;
              calls2 = calls1 @ [CreateTag p]
          in case createTag env p of
            Inl e \<Rightarrow> \<lparr>exit = Thrown e, outputs = out0, calls = calls2\<rparr>
          | Inr tag \<Rightarrow>
             (let ref = ''refs/tags/'' @ td_tag tag;
                  calls3 = calls2 @ [CreateRef ref (td_sha tag)]
              in case createRef env ref (td_sha tag) of
                Inl e \<Rightarrow> \<lparr>exit = Thrown e, outputs = out0, calls = calls3\<rparr>
              | Inr tagRef \<Rightarrow>
                 (let parsedVersion = semver_parse env version;
                      r = \<lparr>rp_name = tName, rp_body = tagMessage, rp_tag_name = tName,
                           rp_draft = False, rp_prerelease = prereleaseFlag parsedVersion\<rparr>;
                      calls4 = calls3 @ [CreateRelease r]
                  in case createRelease env r of
                    Inl e \<Rightarrow> \<lparr>exit = Thrown e, outputs = out0, calls = calls4\<rparr>
                  | Inr release \<Rightarrow>
                      \<lparr>exit = Completed,
                       outputs = out0 @
                         [(''tag_name'', Str tName), (''tag_revision'', Number tRevision),
                          (''tag_sha'', Str (td_sha tag)), (''tag_uri'', Str (rd_url tagRef)),
                          (''release_uri'', Str (rl_url release))],
                       calls = calls4\<rparr>))))"

text \<open>Lines 129 to 134: the changelog between the first tag of the list and the commit.\<close>

definition publish ::
  "env \<Rightarrow> string \<Rightarrow> repo_tag list \<Rightarrow> string \<Rightarrow> number \<Rightarrow> string \<Rightarrow> result" where
  "publish env version tags tName tRevision sha =
     create env version tName tRevision sha
       (getTagMessage env (changelogFrom tags) (Some sha))"

text \<open>Lines 112 to 127: the two guards, the revision and the name of the new tag.\<close>

definition resolve ::
  "env \<Rightarrow> string \<Rightarrow> repo_tag list \<Rightarrow> matching_tag option \<Rightarrow> result" where
  "resolve env version tags matchingTag =
     (let out0 = [(''version'', Str version)]; calls1 = [ListTags 100]
      in if matchingTag \<noteq> None \<and> Some (mt_sha (the matchingTag)) = context_sha env
         then \<lparr>exit = AbortTagAtCommit, outputs = out0, calls = calls1\<rparr>
         else
           let tRevision = tagRevision matchingTag;
               tName = tagName (tag_format env) version tRevision
           in if matchingTag \<noteq> None \<and> mt_name (the matchingTag) = tName
              then \<lparr>exit = AbortTagMatches, outputs = out0, calls = calls1\<rparr>
              else if falsy (context_sha env)
              then \<lparr>exit = Failed ''Can not create new tag as commit SHA is missing in context'',
                    outputs = out0, calls = calls1\<rparr>
              else publish env version tags tName tRevision (the (context_sha env)))"

text \<open>
  Lines 97 to 110: the sentinel versions, the tag pattern and the search. The result is the
  end of the run, or the tag list with the matching tag.
\<close>

definition findTag :: "env \<Rightarrow> string \<Rightarrow> result + repo_tag list \<times> matching_tag option" where
  "findTag env version =
     (let out0 = [(''version'', Str version)]
      in if version = ''0'' \<or> version = ''0.0'' \<or> version = ''0.0.0''
         then Inl \<lparr>exit = AbortAllZeros, outputs = out0, calls = []\<rparr>
         else (case RegExp env (tagPattern (tag_format env) version) [] of
           Inl e \<Rightarrow> Inl \<lparr>exit = Thrown e, outputs = out0, calls = []\<rparr>
         | Inr tagRegExp \<Rightarrow>
             (case GitHub env (api_token env) of
                Some e \<Rightarrow> Inl \<lparr>exit = Thrown e, outputs = out0, calls = []\<rparr>
              | None \<Rightarrow>
                  (case getRepoTags env of
                     Inl e \<Rightarrow> Inl \<lparr>exit = Thrown e, outputs = out0, calls = [ListTags 100]\<rparr>
                   | Inr tags \<Rightarrow> Inr (tags, searchMatchingTag tags tagRegExp)))))"

text \<open>
  Lines 77 to 93: the version is read from the source file. The result is the way the run
  ends there, or the version.
\<close>

definition extractVersion :: "env \<Rightarrow> exit + string" where
  "extractVersion env =
     (case RegExp env (version_pattern env) ''gm'' of
        Inl e \<Rightarrow> Inl (Thrown e)
      | Inr versionRegExp \<Rightarrow>
          if \<not> existsSync env (source_file env)
          then Inl (Failed (''Could not find source file: '' @ source_file env))
          else (case readFileSync env (source_file env) of
            Inl e \<Rightarrow> Inl (Thrown e)
          | Inr contents \<Rightarrow>
              (case versionRegExp contents of
                 None \<Rightarrow>
                   Inl (Failed (''Could not find version pattern in source file: ''
                                @ version_pattern env))
               | Some matches \<Rightarrow>
                   if groups matches = None \<or> falsy (group (the (groups matches)) ''version'')
                   then Inl (Failed (''Could not find named capture group 'version' in pattern: ''
                                     @ version_pattern env))
                   else Inr (the (group (the (groups matches)) ''version'')))))"

definition run :: "env \<Rightarrow> result" where
  "run env =
     (case extractVersion env of
        Inl x \<Rightarrow> \<lparr>exit = x, outputs = [], calls = []\<rparr>
      | Inr version \<Rightarrow>
          (case findTag env version of
             Inl r \<Rightarrow> r
           | Inr (tags, matchingTag) \<Rightarrow> resolve env version tags matchingTag))"

section \<open>A matcher for a fragment of the pattern language\<close>

text \<open>
  To run the model on concrete inputs the parameter \<open>RegExp\<close> needs a value. \<open>jsRegExp\<close>
  implements a fragment of the ECMAScript pattern language: characters, \<^verbatim>\<open>.\<close>, \<^verbatim>\<open>^\<close>,
  \<^verbatim>\<open>$\<close>, character classes of characters and ranges, the class escapes \<^verbatim>\<open>\d \w \s\<close> and
  their complements, escaped syntax characters, groups (capturing, named, non-capturing),
  alternation and the greedy quantifiers \<^verbatim>\<open>* + ?\<close>, with the flags \<^verbatim>\<open>g\<close> and \<^verbatim>\<open>m\<close>. A
  brace that does not start a quantifier is a character, as in every browser and in Node.js.
  A pattern outside the fragment is refused with an error that says so.

  \<open>matches r ml s i cs\<close> lists the ways \<open>r\<close> can match \<open>s\<close> from position \<open>i\<close> with
  the named captures \<open>cs\<close>, in the order in which a backtracking matcher tries them: the end
  position and the captures of each. A quantified term forgets the captures of its groups at
  the start of each round, and a round after the required ones must not match the empty
  string.
\<close>

datatype rx =
    RChar char
  | RAny
  | RClass bool "(char \<times> char) list"
  | RBol
  | REol
  | REmpty
  | RSeq rx rx
  | RAlt rx rx
  | RGroup "string option" rx
  | RStar rx
  | RPlus rx
  | ROpt rx

fun rsize :: "rx \<Rightarrow> nat" where
  "rsize (RSeq a b) = Suc (rsize a + rsize b)"
| "rsize (RAlt a b) = Suc (rsize a + rsize b)"
| "rsize (RGroup n r) = Suc (rsize r)"
| "rsize (RStar r) = Suc (rsize r)"
| "rsize (RPlus r) = Suc (Suc (rsize r))"
| "rsize (ROpt r) = Suc (rsize r)"
| "rsize r = 0"

fun groupNames :: "rx \<Rightarrow> string list" where
  "groupNames (RSeq a b) = groupNames a @ groupNames b"
| "groupNames (RAlt a b) = groupNames a @ groupNames b"
| "groupNames (RGroup n r) = (case n of None \<Rightarrow> [] | Some x \<Rightarrow> [x]) @ groupNames r"
| "groupNames (RStar r) = groupNames r"
| "groupNames (RPlus r) = groupNames r"
| "groupNames (ROpt r) = groupNames r"
| "groupNames r = []"

definition isLineTerminator :: "char \<Rightarrow> bool" where
  "isLineTerminator c = (c = CHR 0x0A \<or> c = CHR 0x0D)"

definition inClass :: "(char \<times> char) list \<Rightarrow> char \<Rightarrow> bool" where
  "inClass rs c = (\<exists>(lo, hi) \<in> set rs. (of_char lo :: nat) \<le> of_char c \<and> (of_char c :: nat) \<le> of_char hi)"

definition forget :: "rx \<Rightarrow> (string \<times> string) list \<Rightarrow> (string \<times> string) list" where
  "forget r cs = filter (\<lambda>(n, v). n \<notin> set (groupNames r)) cs"

definition single :: "bool \<Rightarrow> nat \<Rightarrow> (string \<times> string) list \<Rightarrow> (nat \<times> (string \<times> string) list) list" where
  "single ok i cs = (if ok then [(i, cs)] else [])"

function matches ::
  "rx \<Rightarrow> bool \<Rightarrow> string \<Rightarrow> nat \<Rightarrow> (string \<times> string) list \<Rightarrow> (nat \<times> (string \<times> string) list) list" where
  "matches (RChar c) ml s i cs = single (i < length s \<and> s ! i = c) (Suc i) cs"
| "matches RAny ml s i cs = single (i < length s \<and> \<not> isLineTerminator (s ! i)) (Suc i) cs"
| "matches (RClass neg rs) ml s i cs = single (i < length s \<and> (inClass rs (s ! i) \<noteq> neg)) (Suc i) cs"
| "matches RBol ml s i cs = single (i = 0 \<or> (ml \<and> i \<le> length s \<and> isLineTerminator (s ! (i - 1)))) i cs"
| "matches REol ml s i cs = single (i = length s \<or> (ml \<and> i < length s \<and> isLineTerminator (s ! i))) i cs"
| "matches REmpty ml s i cs = [(i, cs)]"
| "matches (RSeq a b) ml s i cs =
     concat (map (\<lambda>(j, cs'). matches b ml s j cs') (matches a ml s i cs))"
| "matches (RAlt a b) ml s i cs = matches a ml s i cs @ matches b ml s i cs"
| "matches (RGroup n r) ml s i cs =
     map (\<lambda>(j, cs'). (j, case n of None \<Rightarrow> cs'
                              | Some x \<Rightarrow> (x, take (j - i) (drop i s)) # filter (\<lambda>(y, v). y \<noteq> x) cs'))
       (matches r ml s i cs)"
| "matches (RStar r) ml s i cs =
     concat (map (\<lambda>(j, cs'). if i < j \<and> j \<le> length s then matches (RStar r) ml s j cs' else [])
               (matches r ml s i (forget r cs)))
     @ [(i, cs)]"
| "matches (RPlus r) ml s i cs =
     concat (map (\<lambda>(j, cs'). if i \<le> j \<and> j \<le> length s then matches (RStar r) ml s j cs' else [])
               (matches r ml s i (forget r cs)))"
| "matches (ROpt r) ml s i cs =
     concat (map (\<lambda>(j, cs'). if i < j then [(j, cs')] else []) (matches r ml s i (forget r cs)))
     @ [(i, cs)]"
  by pat_completeness auto
termination
  by (relation "inv_image (measure rsize <*lex*> measure id) (\<lambda>(r, ml, s, i, cs). (r, length s - i))")
     auto

text \<open>\<^verbatim>\<open>exec\<close> tries the start positions from the left and takes the first way to match.\<close>

fun scan :: "rx \<Rightarrow> bool \<Rightarrow> string \<Rightarrow> nat \<Rightarrow> string \<Rightarrow> exec_result option" where
  "scan r ml s i rest =
     (case matches r ml s i [] of
        (j, cs) # alternatives \<Rightarrow>
          Some \<lparr>matched = take (j - i) (drop i s),
                groups = (if groupNames r = [] then None
                          else Some (map (\<lambda>x. (x, map_of cs x)) (groupNames r)))\<rparr>
      | [] \<Rightarrow> (case rest of [] \<Rightarrow> None | c # rest' \<Rightarrow> scan r ml s (Suc i) rest'))"

declare scan.simps [simp del]

definition exec :: "rx \<Rightarrow> bool \<Rightarrow> regexp" where
  "exec r ml s = scan r ml s 0 s"

subsection \<open>Reading a pattern\<close>

datatype gkind = GRoot | GCap "string option" | GNon

datatype pmode = PNormal | PClass string | PName string

type_synonym frame = "gkind \<times> rx list \<times> rx list"

definition seqOf :: "rx list \<Rightarrow> rx" where
  "seqOf items = foldl (\<lambda>acc r. RSeq r acc) REmpty items"

definition closeFrame :: "frame \<Rightarrow> rx" where
  "closeFrame fr =
     (case fr of (k, alts, cur) \<Rightarrow>
        let body = foldl (\<lambda>acc a. RAlt a acc) (seqOf cur) alts
        in (case k of GCap n \<Rightarrow> RGroup n body | GNon \<Rightarrow> body | GRoot \<Rightarrow> body))"

definition pushItem :: "rx \<Rightarrow> frame \<Rightarrow> frame" where
  "pushItem r fr = (case fr of (k, alts, cur) \<Rightarrow> (k, alts, r # cur))"

definition isDigitChar :: "char \<Rightarrow> bool" where
  "isDigitChar c = ((48::nat) \<le> of_char c \<and> (of_char c :: nat) \<le> 57)"

definition isNameStart :: "char \<Rightarrow> bool" where
  "isNameStart c = (let n = of_char c :: nat in
     (65 \<le> n \<and> n \<le> 90) \<or> (97 \<le> n \<and> n \<le> 122) \<or> c = CHR ''_'' \<or> c = CHR ''$'')"

definition validName :: "string \<Rightarrow> bool" where
  "validName n = (n \<noteq> [] \<and> isNameStart (hd n) \<and> (\<forall>c \<in> set n. isNameStart c \<or> isDigitChar c))"

definition braceQuantifier :: "string \<Rightarrow> bool" where
  "braceQuantifier cs =
     (let d1 = takeWhile isDigitChar cs; r1 = dropWhile isDigitChar cs
      in d1 \<noteq> [] \<and>
         (case r1 of
            [] \<Rightarrow> False
          | c # r2 \<Rightarrow>
              if c = CHR ''}'' then True
              else if c = CHR '','' then
                (case dropWhile isDigitChar r2 of [] \<Rightarrow> False | d # r3 \<Rightarrow> d = CHR ''}'')
              else False))"

fun classRanges :: "string \<Rightarrow> (char \<times> char) list option" where
  "classRanges [] = Some []"
| "classRanges [a] = Some [(a, a)]"
| "classRanges [a, b] = Some [(a, a), (b, b)]"
| "classRanges (a # d # b # r) =
     (if d = CHR ''-'' then
        (if (of_char a :: nat) \<le> of_char b then map_option ((#) (a, b)) (classRanges r) else None)
      else map_option ((#) (a, a)) (classRanges (d # b # r)))"

definition classOf :: "string \<Rightarrow> error + rx" where
  "classOf raw =
     (let neg = (raw \<noteq> [] \<and> hd raw = CHR ''^'')
      in case classRanges (if neg then tl raw else raw) of
           None \<Rightarrow> Inl ''SyntaxError: Range out of order in character class''
         | Some rs \<Rightarrow> Inr (RClass neg rs))"

definition wordRanges :: "(char \<times> char) list" where
  "wordRanges = [(CHR ''a'', CHR ''z''), (CHR ''A'', CHR ''Z''), (CHR ''0'', CHR ''9''), (CHR ''_'', CHR ''_'')]"

definition spaceRanges :: "(char \<times> char) list" where
  "spaceRanges = [(CHR 0x09, CHR 0x0D), (CHR 0x20, CHR 0x20), (CHR 0xA0, CHR 0xA0)]"

definition escape :: "char \<Rightarrow> rx option" where
  "escape d =
     (if d \<in> set ''^$.*+?()[]{}|/-'' \<or> d = CHR 0x5C then Some (RChar d)
      else if d = CHR ''d'' then Some (RClass False [(CHR ''0'', CHR ''9'')])
      else if d = CHR ''D'' then Some (RClass True [(CHR ''0'', CHR ''9'')])
      else if d = CHR ''w'' then Some (RClass False wordRanges)
      else if d = CHR ''W'' then Some (RClass True wordRanges)
      else if d = CHR ''s'' then Some (RClass False spaceRanges)
      else if d = CHR ''S'' then Some (RClass True spaceRanges)
      else None)"

definition isQuantified :: "rx \<Rightarrow> bool" where
  "isQuantified r = (case r of RStar x \<Rightarrow> True | RPlus x \<Rightarrow> True | ROpt x \<Rightarrow> True | _ \<Rightarrow> False)"

definition quantify :: "char \<Rightarrow> rx \<Rightarrow> rx" where
  "quantify c r = (if c = CHR ''*'' then RStar r else if c = CHR ''+'' then RPlus r else ROpt r)"

fun parse :: "string \<Rightarrow> pmode \<Rightarrow> frame \<Rightarrow> frame list \<Rightarrow> string list \<Rightarrow> error + rx" where
  "parse [] PNormal fr stk names =
     (if stk = [] then Inr (closeFrame fr) else Inl ''SyntaxError: Unterminated group'')"
| "parse [] (PClass acc) fr stk names = Inl ''SyntaxError: Unterminated character class''"
| "parse [] (PName acc) fr stk names = Inl ''SyntaxError: Invalid capture group name''"
| "parse (c # cs) (PClass acc) fr stk names =
     (if c = CHR '']'' then
        (case classOf (rev acc) of
           Inl e \<Rightarrow> Inl e
         | Inr r \<Rightarrow> parse cs PNormal (pushItem r fr) stk names)
      else if c = CHR 0x5C then Inl ''outside the fragment: escape in a character class''
      else parse cs (PClass (c # acc)) fr stk names)"
| "parse (c # cs) (PName acc) fr stk names =
     (if c = CHR ''>'' then
        (if \<not> validName (rev acc) then Inl ''SyntaxError: Invalid capture group name''
         else if rev acc \<in> set names then Inl ''SyntaxError: Duplicate capture group name''
         else parse cs PNormal (GCap (Some (rev acc)), [], []) (fr # stk) (names @ [rev acc]))
      else parse cs (PName (c # acc)) fr stk names)"
| "parse (c # cs) PNormal fr stk names =
     (if c = CHR ''('' then
        (case cs of
           [] \<Rightarrow> Inl ''SyntaxError: Unterminated group''
         | q # cs1 \<Rightarrow>
             if q \<noteq> CHR ''?'' then parse cs PNormal (GCap None, [], []) (fr # stk) names
             else
               (case cs1 of
                  [] \<Rightarrow> Inl ''SyntaxError: Invalid group''
                | k # cs2 \<Rightarrow>
                    if k = CHR '':'' then parse cs2 PNormal (GNon, [], []) (fr # stk) names
                    else if k = CHR ''<'' then
                      (if cs2 \<noteq> [] \<and> (hd cs2 = CHR ''='' \<or> hd cs2 = CHR ''!'')
                       then Inl ''outside the fragment: lookbehind''
                       else parse cs2 (PName []) fr stk names)
                    else if k = CHR ''='' \<or> k = CHR ''!'' then Inl ''outside the fragment: lookahead''
                    else Inl ''SyntaxError: Invalid group''))
      else if c = CHR '')'' then
        (case stk of
           [] \<Rightarrow> Inl ''SyntaxError: Unmatched )''
         | parent # stk' \<Rightarrow> parse cs PNormal (pushItem (closeFrame fr) parent) stk' names)
      else if c = CHR ''|'' then
        (case fr of (k, alts, cur) \<Rightarrow> parse cs PNormal (k, seqOf cur # alts, []) stk names)
      else if c = CHR ''*'' \<or> c = CHR ''+'' \<or> c = CHR ''?'' then
        (case fr of (k, alts, cur) \<Rightarrow>
           (case cur of
              [] \<Rightarrow> Inl ''SyntaxError: Nothing to repeat''
            | r # rest \<Rightarrow>
                if isQuantified r then
                  (if c = CHR ''?'' then Inl ''outside the fragment: lazy quantifier''
                   else Inl ''SyntaxError: Nothing to repeat'')
                else if r = RBol \<or> r = REol then Inl ''SyntaxError: Nothing to repeat''
                else parse cs PNormal (k, alts, quantify c r # rest) stk names))
      else if c = CHR ''{'' then
        (if braceQuantifier cs then Inl ''outside the fragment: braced quantifier''
         else parse cs PNormal (pushItem (RChar c) fr) stk names)
      else if c = CHR ''['' then parse cs (PClass []) fr stk names
      else if c = CHR 0x5C then
        (case cs of
           [] \<Rightarrow> Inl ''SyntaxError: backslash at end of pattern''
         | d # cs1 \<Rightarrow>
             (case escape d of
                None \<Rightarrow> Inl ''outside the fragment: escape''
              | Some r \<Rightarrow> parse cs1 PNormal (pushItem r fr) stk names))
      else if c = CHR ''.'' then parse cs PNormal (pushItem RAny fr) stk names
      else if c = CHR ''^'' then parse cs PNormal (pushItem RBol fr) stk names
      else if c = CHR ''$'' then parse cs PNormal (pushItem REol fr) stk names
      else parse cs PNormal (pushItem (RChar c) fr) stk names)"

definition jsRegExp :: "string \<Rightarrow> string \<Rightarrow> error + regexp" where
  "jsRegExp source flags =
     (if flags \<notin> {[], ''g'', ''m'', ''gm'', ''mg''} then Inl ''outside the fragment: flags''
      else case parse source PNormal (GRoot, [], []) [] [] of
             Inl e \<Rightarrow> Inl e
           | Inr r \<Rightarrow> Inr (exec r (CHR ''m'' \<in> set flags)))"

section \<open>An example environment\<close>

text \<open>
  The workflow of the README: the version is read from \<^verbatim>\<open>package.json\<close> with the pattern
  \<^verbatim>\<open>"version"\s*:\s*"(?<version>[0-9.]+)"\<close>, the commit is \<^verbatim>\<open>abc123\<close>. The tag format, the
  version in the file and the tags of the repository are left open. GitHub answers every
  call; \<open>semverTable\<close> holds the answers of \<^verbatim>\<open>semver.parse\<close> for the versions used below.
\<close>

definition quote :: string where
  "quote = [CHR 0x22]"

definition readmePattern :: string where
  "readmePattern =
     quote @ ''version'' @ quote @ [CHR 0x5C] @ ''s*:'' @ [CHR 0x5C] @ ''s*'' @ quote
     @ ''(?<version>[0-9.]+)'' @ quote"

definition packageJson :: "string \<Rightarrow> string" where
  "packageJson version =
     ''{'' @ newline @ ''  '' @ quote @ ''version'' @ quote @ '': '' @ quote @ version @ quote
     @ newline @ ''}''"

definition semverTable :: "string \<Rightarrow> semver option" where
  "semverTable = map_of
     [(''2.3.0'', \<lparr>major = 2, minor = 3, patch = 0, prerelease = [], build = []\<rparr>),
      (''1.0.0'', \<lparr>major = 1, minor = 0, patch = 0, prerelease = [], build = []\<rparr>),
      (''0.3.0'', \<lparr>major = 0, minor = 3, patch = 0, prerelease = [], build = []\<rparr>)]"

definition exampleCommits :: "commit option list" where
  "exampleCommits =
     [Some \<lparr>message = ''Fix the parser'', author = Some \<lparr>login = ''octocat''\<rparr>\<rparr>,
      Some \<lparr>message = ''Bump the version'', author = None\<rparr>]"

definition exampleEnv :: "string \<Rightarrow> string \<Rightarrow> repo_tag list \<Rightarrow> env" where
  "exampleEnv tagFormat version tags =
     \<lparr>api_token = ''token'',
      source_file = ''package.json'',
      tag_format = tagFormat,
      version_pattern = readmePattern,
      existsSync = (\<lambda>path. path = ''package.json''),
      readFileSync = (\<lambda>path. if path = ''package.json'' then Inr (packageJson version)
                               else Inl ''ENOENT: no such file or directory''),
      RegExp = jsRegExp,
      semver_parse = semverTable,
      context_sha = Some ''abc123'',
      GitHub = (\<lambda>token. if token = [] then Some ''Parameter token or opts.auth is required''
                          else None),
      listTags = (\<lambda>per_page. Inr tags),
      compareCommits = (\<lambda>base head. Inr \<lparr>commits = Some exampleCommits\<rparr>),
      createTag = (\<lambda>p. Inr \<lparr>td_tag = tp_tag p, td_sha = ''0a1b2c''\<rparr>),
      createRef = (\<lambda>ref sha. Inr \<lparr>rd_ref = ref, rd_url = ''https://api.github.com/'' @ ref\<rparr>),
      createRelease = (\<lambda>p. Inr \<lparr>rl_url = ''https://api.github.com/releases/1''\<rparr>)\<rparr>"

section \<open>Notions used by the claims\<close>

text \<open>
  The environment of the next run on the same commit with the same inputs, after a run has
  created the tag \<open>tName\<close>: GitHub lists the new tag first, with the SHA of the commit.
\<close>

definition nextEnv :: "env \<Rightarrow> string \<Rightarrow> env" where
  "nextEnv env tName =
     env\<lparr>listTags := (\<lambda>per_page.
            case listTags env per_page of
              Inl e \<Rightarrow> Inl e
            | Inr tags \<Rightarrow> Inr (\<lparr>name = tName, commit_sha = the (context_sha env)\<rparr> # tags))\<rparr>"

text \<open>
  The changelog in the words of the specification: one line for each commit, a star and the
  message, followed by the login of the author in parentheses when there is one; the lines
  joined with newlines and the result trimmed.
\<close>

definition commitLine :: "commit \<Rightarrow> string" where
  "commitLine c =
     ''* '' @ message c @
     (case author c of
        None \<Rightarrow> []
      | Some a \<Rightarrow> if login a = [] then [] else '' ('' @ login a @ '')'')"

fun joinLines :: "string list \<Rightarrow> string" where
  "joinLines [] = []"
| "joinLines [l] = l"
| "joinLines (l # l' # ls) = l @ newline @ joinLines (l' # ls)"

definition specChangelog :: "commit option list \<Rightarrow> string" where
  "specChangelog cs = trim (joinLines (map commitLine (List.map_filter id cs)))"

text \<open>Tag lists of the examples, with the tag the search finds in each.\<close>

definition twoTags :: "repo_tag list" where
  "twoTags = [\<lparr>name = ''nightly'', commit_sha = ''fff000''\<rparr>,
              \<lparr>name = ''v2.3.0-1'', commit_sha = ''def456''\<rparr>]"

definition revisionMatch :: matching_tag where
  "revisionMatch = \<lparr>mt_name = ''v2.3.0-1'', mt_sha = ''def456'',
     mt_match = \<lparr>matched = ''v2.3.0-1'', groups = Some [(''revision'', Some ''1'')]\<rparr>\<rparr>"

definition upperTag :: "repo_tag list" where
  "upperTag = [\<lparr>name = ''V1.0.0'', commit_sha = ''def456''\<rparr>]"

definition upperMatch :: matching_tag where
  "upperMatch = \<lparr>mt_name = ''V1.0.0'', mt_sha = ''def456'',
     mt_match = \<lparr>matched = ''v1.0.0'', groups = None\<rparr>\<rparr>"

text \<open>A tag format with parentheses around the version. The README describes the format
  as the text of the tag name with its two placeholders; line 100 makes it the source of a
  regular expression as it stands.\<close>

definition parenEnv :: env where
  "parenEnv = exampleEnv ''release({version})'' ''2.3.0'' []"

text \<open>A tag whose revision is \<open>2 ^ 53\<close>, the first number whose successor is no double.\<close>

definition bigTags :: "repo_tag list" where
  "bigTags = [\<lparr>name = ''v1.0.0-9007199254740992'', commit_sha = ''def456''\<rparr>]"

definition bigMatch :: matching_tag where
  "bigMatch = \<lparr>mt_name = ''v1.0.0-9007199254740992'', mt_sha = ''def456'',
     mt_match = \<lparr>matched = ''v1.0.0-9007199254740992'',
                  groups = Some [(''revision'', Some ''9007199254740992'')]\<rparr>\<rparr>"

text \<open>A tag with spaces around an upper-case name, and a tag that only begins with the name
  the format composes.\<close>

definition spacedTag :: "repo_tag list" where
  "spacedTag = [\<lparr>name = '' V1.0.0 '', commit_sha = ''def456''\<rparr>]"

definition oldTag :: "repo_tag list" where
  "oldTag = [\<lparr>name = ''v2.3.0-old'', commit_sha = ''def456''\<rparr>]"






section \<open>Evaluation on concrete inputs\<close>

lemmas js_string_eval =
  toLowerCase_def toLowerChar_def isUpperChar_def trim_def isWhiteSpace_def replace_def

lemmas js_regexp_eval =
  jsRegExp_def closeFrame_def pushItem_def seqOf_def classOf_def validName_def isNameStart_def
  isDigitChar_def braceQuantifier_def escape_def isQuantified_def quantify_def exec_def
  scan.simps single_def forget_def inClass_def isLineTerminator_def wordRanges_def
  spaceRanges_def

lemmas example_eval =
  exampleEnv_def readmePattern_def packageJson_def quote_def newline_def semverTable_def
  exampleCommits_def

lemma example_fields:
  "api_token (exampleEnv f v t) = ''token''"
  "source_file (exampleEnv f v t) = ''package.json''"
  "tag_format (exampleEnv f v t) = f"
  "version_pattern (exampleEnv f v t) = readmePattern"
  "existsSync (exampleEnv f v t) = (\<lambda>path. path = ''package.json'')"
  "readFileSync (exampleEnv f v t) ''package.json'' = Inr (packageJson v)"
  "RegExp (exampleEnv f v t) = jsRegExp"
  "semver_parse (exampleEnv f v t) = semverTable"
  "context_sha (exampleEnv f v t) = Some ''abc123''"
  "GitHub (exampleEnv f v t) ''token'' = None"
  "listTags (exampleEnv f v t) n = Inr t"
  "compareCommits (exampleEnv f v t) b h = Inr \<lparr>commits = Some exampleCommits\<rparr>"
  "createTag (exampleEnv f v t) p = Inr \<lparr>td_tag = tp_tag p, td_sha = ''0a1b2c''\<rparr>"
  "createRef (exampleEnv f v t) r s = Inr \<lparr>rd_ref = r, rd_url = ''https://api.github.com/'' @ r\<rparr>"
  "createRelease (exampleEnv f v t) q = Inr \<lparr>rl_url = ''https://api.github.com/releases/1''\<rparr>"
  by (simp_all add: exampleEnv_def)

lemmas run_eval =
  run_def findTag_def resolve_def publish_def create_def getRepoTags_def getTagMessage_def tagPattern_def
  tagName_def tagRevision_def changelogFrom_def prereleaseFlag_def falsy_def group_def
  natToString_def digitsOf.simps digitChar_def example_fields semverTable_def newline_def Let_def

lemma example_extractVersion:
  "extractVersion (exampleEnv tagFormat ''2.3.0'' tags) = Inr ''2.3.0''"
  by (simp add: extractVersion_def example_eval js_regexp_eval group_def falsy_def)

lemma example_extractVersion_zero:
  "extractVersion (exampleEnv tagFormat ''0.0.0'' tags) = Inr ''0.0.0''"
  by (simp add: extractVersion_def example_eval js_regexp_eval group_def falsy_def)

section \<open>The sentinel versions\<close>

text \<open>
  Claim C5. When the version extracted from the source file is \<^verbatim>\<open>0\<close>, \<^verbatim>\<open>0.0\<close> or
  \<^verbatim>\<open>0.0.0\<close>, the run ends with the successful early return of line 98: the output
  \<^verbatim>\<open>version\<close> is set, nothing else is, and no call to GitHub is made, so no tag, reference
  or release is created.
\<close>

theorem all_zeros_version_creates_nothing:
  assumes "extractVersion env = Inr version"
    and "version = ''0'' \<or> version = ''0.0'' \<or> version = ''0.0.0''"
  shows "run env = \<lparr>exit = AbortAllZeros, outputs = [(''version'', Str version)], calls = []\<rparr>"
  using assms by (auto simp: run_def findTag_def)

theorem all_zeros_version_creates_nothing_witness:
  "extractVersion (exampleEnv ''v{version}'' ''0.0.0'' []) = Inr ''0.0.0''
   \<and> run (exampleEnv ''v{version}'' ''0.0.0'' []) =
       \<lparr>exit = AbortAllZeros, outputs = [(''version'', Str ''0.0.0'')], calls = []\<rparr>"
  using all_zeros_version_creates_nothing [of "exampleEnv ''v{version}'' ''0.0.0'' []" "''0.0.0''"]
  by (simp add: example_extractVersion_zero)

section \<open>The stages of a run\<close>

lemma run_found:
  "extractVersion env = Inr version \<Longrightarrow> findTag env version = Inr (tags, m)
   \<Longrightarrow> run env = resolve env version tags m"
  by (simp add: run_def)

lemma findTag_Inl_exit: "findTag env v = Inl r \<Longrightarrow> exit r \<noteq> Completed"
  by (auto simp: findTag_def Let_def split: if_splits sum.splits option.splits)

lemma findTag_Inr:
  "findTag env v = Inr (tags, m) \<Longrightarrow>
     \<not> (v = ''0'' \<or> v = ''0.0'' \<or> v = ''0.0.0'') \<and>
     (\<exists>rx. RegExp env (tagPattern (tag_format env) v) [] = Inr rx
        \<and> GitHub env (api_token env) = None \<and> listTags env 100 = Inr tags
        \<and> m = searchMatchingTag tags rx)"
  by (auto simp: findTag_def getRepoTags_def Let_def split: if_splits sum.splits option.splits)

lemma findTag_intro:
  "\<not> (v = ''0'' \<or> v = ''0.0'' \<or> v = ''0.0.0'') \<Longrightarrow>
   RegExp env (tagPattern (tag_format env) v) [] = Inr rx \<Longrightarrow>
   GitHub env (api_token env) = None \<Longrightarrow> listTags env 100 = Inr tags \<Longrightarrow>
   findTag env v = Inr (tags, searchMatchingTag tags rx)"
  by (simp add: findTag_def getRepoTags_def Let_def)

lemma resolve_Completed_sha:
  "exit (resolve env v tags m) = Completed \<Longrightarrow> \<exists>sha. context_sha env = Some sha"
  by (cases "context_sha env") (auto simp: resolve_def Let_def falsy_def split: if_splits)

lemma resolve_at_commit:
  "context_sha env = Some (mt_sha m) \<Longrightarrow>
   resolve env version tags (Some m) =
     \<lparr>exit = AbortTagAtCommit, outputs = [(''version'', Str version)], calls = [ListTags 100]\<rparr>"
  by (simp add: resolve_def)

lemma extractVersion_nextEnv: "extractVersion (nextEnv env tName) = extractVersion env"
  by (simp add: extractVersion_def nextEnv_def cong: sum.case_cong option.case_cong if_cong)

lemma example_first_run:
  "run (exampleEnv ''v{version}'' ''2.3.0'' []) =
     \<lparr>exit = Completed,
      outputs = [(''version'', Str ''2.3.0''), (''tag_name'', Str ''v2.3.0''),
                 (''tag_revision'', Number (Num 1)), (''tag_sha'', Str ''0a1b2c''),
                 (''tag_uri'', Str ''https://api.github.com/refs/tags/v2.3.0''),
                 (''release_uri'', Str ''https://api.github.com/releases/1'')],
      calls = [ListTags 100,
               CreateTag \<lparr>tp_tag = ''v2.3.0'',
                          tp_message = ''v2.3.0'' @ newline @ newline @ ''Initial tag'',
                          tp_object = ''abc123'', tp_type = ''commit''\<rparr>,
               CreateRef ''refs/tags/v2.3.0'' ''0a1b2c'',
               CreateRelease \<lparr>rp_name = ''v2.3.0'', rp_body = ''Initial tag'',
                              rp_tag_name = ''v2.3.0'', rp_draft = False,
                              rp_prerelease = False\<rparr>]\<rparr>"
  by (simp add: run_eval example_extractVersion js_string_eval js_regexp_eval)

section \<open>The tag of the current commit\<close>

text \<open>
  Claim C4. When the search finds a matching tag whose SHA is the SHA of the current commit,
  the run ends with the successful early return of line 113: the only call made is the one
  that lists the tags, so no tag object, reference or release is created. The second part is
  the second of two runs with the same inputs on the same commit: the first run has completed
  and has created the tag \<open>tName\<close>, the name of its output \<open>tag_name\<close>, and the repository
  has not changed otherwise. When the regular expression of the tag pattern matches the
  trimmed, lower-cased name of that tag, the second run ends in the same way and creates
  nothing. The condition on the pattern is needed: the pattern is the tag format with the
  version spliced in, read as a regular expression, and it need not match the name that the
  same format and version compose.
\<close>

theorem tag_at_current_commit_aborts:
  "(extractVersion env = Inr version \<and> findTag env version = Inr (tags, Some m)
      \<and> context_sha env = Some (mt_sha m)
    \<longrightarrow> run env = \<lparr>exit = AbortTagAtCommit, outputs = [(''version'', Str version)],
                   calls = [ListTags 100]\<rparr>)
   \<and> (extractVersion env = Inr version \<and> exit (run env) = Completed
      \<and> map_of (outputs (run env)) ''tag_name'' = Some (Str tName)
      \<and> RegExp env (tagPattern (tag_format env) version) [] = Inr rx
      \<and> rx (toLowerCase (trim tName)) \<noteq> None
    \<longrightarrow> run (nextEnv env tName) =
          \<lparr>exit = AbortTagAtCommit, outputs = [(''version'', Str version)],
           calls = [ListTags 100]\<rparr>)"
proof (intro conjI impI)
  assume "extractVersion env = Inr version \<and> findTag env version = Inr (tags, Some m)
      \<and> context_sha env = Some (mt_sha m)"
  then show "run env = \<lparr>exit = AbortTagAtCommit, outputs = [(''version'', Str version)],
                   calls = [ListTags 100]\<rparr>"
    by (simp add: run_found resolve_at_commit)
next
  assume a: "extractVersion env = Inr version \<and> exit (run env) = Completed
      \<and> map_of (outputs (run env)) ''tag_name'' = Some (Str tName)
      \<and> RegExp env (tagPattern (tag_format env) version) [] = Inr rx
      \<and> rx (toLowerCase (trim tName)) \<noteq> None"
  let ?env = "nextEnv env tName"
  from a obtain ts m0 where f: "findTag env version = Inr (ts, m0)"
    by (cases "findTag env version") (auto simp: run_def dest: findTag_Inl_exit)
  with a have "exit (resolve env version ts m0) = Completed" by (auto simp: run_def)
  then obtain sha where sha: "context_sha env = Some sha" using resolve_Completed_sha by blast
  from a obtain x where x: "rx (toLowerCase (trim tName)) = Some x" by auto
  from findTag_Inr [OF f] a
  have nz: "\<not> (version = ''0'' \<or> version = ''0.0'' \<or> version = ''0.0.0'')"
    and gh: "GitHub env (api_token env) = None" and lt: "listTags env 100 = Inr ts"
    by auto
  have ev: "extractVersion ?env = Inr version"
    using a by (simp add: extractVersion_nextEnv)
  have "findTag ?env version =
      Inr (\<lparr>name = tName, commit_sha = sha\<rparr> # ts,
           searchMatchingTag (\<lparr>name = tName, commit_sha = sha\<rparr> # ts) rx)"
    by (rule findTag_intro) (use nz a gh lt sha in \<open>simp_all add: nextEnv_def\<close>)
  then have ft: "findTag ?env version =
      Inr (\<lparr>name = tName, commit_sha = sha\<rparr> # ts,
           Some \<lparr>mt_name = tName, mt_sha = sha, mt_match = x\<rparr>)"
    using x by simp
  have "context_sha ?env = Some (mt_sha \<lparr>mt_name = tName, mt_sha = sha, mt_match = x\<rparr>)"
    using sha by (simp add: nextEnv_def)
  then show "run ?env = \<lparr>exit = AbortTagAtCommit, outputs = [(''version'', Str version)],
           calls = [ListTags 100]\<rparr>"
    using ev ft by (simp add: run_found resolve_at_commit)
qed

lemma example_tagPattern: "tagPattern ''v{version}'' ''2.3.0'' = ''^v2.3.0$''"
  by (simp add: tagPattern_def js_string_eval)

lemma example_tagRegExp:
  "jsRegExp ''^v2.3.0$'' [] =
     Inr (exec (RSeq RBol (RSeq (RChar CHR ''v'') (RSeq (RChar CHR ''2'') (RSeq RAny
           (RSeq (RChar CHR ''3'') (RSeq RAny (RSeq (RChar CHR ''0'') (RSeq REol REmpty))))))))
          False)"
  by (simp add: js_regexp_eval)

lemma example_findTag_same_commit:
  "findTag (exampleEnv ''v{version}'' ''2.3.0'' [\<lparr>name = ''v2.3.0'', commit_sha = ''abc123''\<rparr>]) ''2.3.0'' =
     Inr ([\<lparr>name = ''v2.3.0'', commit_sha = ''abc123''\<rparr>],
          Some \<lparr>mt_name = ''v2.3.0'', mt_sha = ''abc123'',
                mt_match = \<lparr>matched = ''v2.3.0'', groups = None\<rparr>\<rparr>)"
  by (simp add: findTag_def getRepoTags_def example_fields example_tagPattern js_regexp_eval
        js_string_eval)

theorem tag_at_current_commit_aborts_witness:
  "(extractVersion (exampleEnv ''v{version}'' ''2.3.0'' [\<lparr>name = ''v2.3.0'', commit_sha = ''abc123''\<rparr>])
      = Inr ''2.3.0''
    \<and> findTag (exampleEnv ''v{version}'' ''2.3.0'' [\<lparr>name = ''v2.3.0'', commit_sha = ''abc123''\<rparr>]) ''2.3.0''
      = Inr ([\<lparr>name = ''v2.3.0'', commit_sha = ''abc123''\<rparr>],
             Some \<lparr>mt_name = ''v2.3.0'', mt_sha = ''abc123'',
                   mt_match = \<lparr>matched = ''v2.3.0'', groups = None\<rparr>\<rparr>)
    \<and> context_sha (exampleEnv ''v{version}'' ''2.3.0'' [\<lparr>name = ''v2.3.0'', commit_sha = ''abc123''\<rparr>])
      = Some ''abc123''
    \<and> run (exampleEnv ''v{version}'' ''2.3.0'' [\<lparr>name = ''v2.3.0'', commit_sha = ''abc123''\<rparr>])
      = \<lparr>exit = AbortTagAtCommit, outputs = [(''version'', Str ''2.3.0'')], calls = [ListTags 100]\<rparr>)
   \<and> (extractVersion (exampleEnv ''v{version}'' ''2.3.0'' []) = Inr ''2.3.0''
    \<and> exit (run (exampleEnv ''v{version}'' ''2.3.0'' [])) = Completed
    \<and> map_of (outputs (run (exampleEnv ''v{version}'' ''2.3.0'' []))) ''tag_name''
      = Some (Str ''v2.3.0'')
    \<and> RegExp (exampleEnv ''v{version}'' ''2.3.0'' []) (tagPattern ''v{version}'' ''2.3.0'') []
      = Inr (projr (jsRegExp ''^v2.3.0$'' []))
    \<and> projr (jsRegExp ''^v2.3.0$'' []) (toLowerCase (trim ''v2.3.0'')) \<noteq> None
    \<and> run (nextEnv (exampleEnv ''v{version}'' ''2.3.0'' []) ''v2.3.0'')
      = \<lparr>exit = AbortTagAtCommit, outputs = [(''version'', Str ''2.3.0'')], calls = [ListTags 100]\<rparr>)"
  using tag_at_current_commit_aborts
          [of "exampleEnv ''v{version}'' ''2.3.0'' [\<lparr>name = ''v2.3.0'', commit_sha = ''abc123''\<rparr>]"
              "''2.3.0''" "[\<lparr>name = ''v2.3.0'', commit_sha = ''abc123''\<rparr>]"
              "\<lparr>mt_name = ''v2.3.0'', mt_sha = ''abc123'',
                mt_match = \<lparr>matched = ''v2.3.0'', groups = None\<rparr>\<rparr>"]
        tag_at_current_commit_aborts
          [of "exampleEnv ''v{version}'' ''2.3.0'' []" "''2.3.0''" _ _
              "''v2.3.0''" "projr (jsRegExp ''^v2.3.0$'' [])"]
  by (simp add: example_extractVersion example_findTag_same_commit example_fields example_first_run
        example_tagPattern example_tagRegExp js_string_eval js_regexp_eval)

subsection \<open>A tag format that does not match its own tag\<close>

text \<open>
  With the tag format \<open>release({version})\<close> and the version 2.3.0 the first run creates the
  tag \<open>release(2.3.0)\<close>. The tag pattern is \<open>^release(2.3.0)$\<close>, where the parentheses form
  a group: it matches \<open>release2.3.0\<close> and does not match the tag that was created. The second
  run on the same commit, with the new tag first in the list, finds no matching tag and asks
  for the tag object again. The GitHub client of the example answers every request, so the
  second run goes on to the reference and the release.
\<close>

lemma nextEnv_fields:
  "api_token (nextEnv env t) = api_token env"
  "tag_format (nextEnv env t) = tag_format env"
  "RegExp (nextEnv env t) = RegExp env"
  "semver_parse (nextEnv env t) = semver_parse env"
  "context_sha (nextEnv env t) = context_sha env"
  "GitHub (nextEnv env t) = GitHub env"
  "compareCommits (nextEnv env t) = compareCommits env"
  "createTag (nextEnv env t) = createTag env"
  "createRef (nextEnv env t) = createRef env"
  "createRelease (nextEnv env t) = createRelease env"
  "listTags (nextEnv env t) n =
     (case listTags env n of Inl e \<Rightarrow> Inl e
      | Inr tags \<Rightarrow> Inr (\<lparr>name = t, commit_sha = the (context_sha env)\<rparr> # tags))"
  by (simp_all add: nextEnv_def)

lemma paren_tagPattern: "tagPattern ''release({version})'' ''2.3.0'' = ''^release(2.3.0)$''"
  by (simp add: tagPattern_def js_string_eval)

lemma paren_tagName: "tagName ''release({version})'' ''2.3.0'' (Num 1) = ''release(2.3.0)''"
  by (simp add: tagName_def natToString_def digitsOf.simps digitChar_def js_string_eval)

lemma paren_no_match:
  "projr (jsRegExp ''^release(2.3.0)$'' []) (toLowerCase (trim ''release(2.3.0)'')) = None"
  "projr (jsRegExp ''^release(2.3.0)$'' []) ''release2.3.0'' \<noteq> None"
  by (simp_all add: js_regexp_eval js_string_eval)

lemma paren_first_run:
  "run parenEnv =
     \<lparr>exit = Completed,
      outputs = [(''version'', Str ''2.3.0''), (''tag_name'', Str ''release(2.3.0)''),
                 (''tag_revision'', Number (Num 1)), (''tag_sha'', Str ''0a1b2c''),
                 (''tag_uri'', Str ''https://api.github.com/refs/tags/release(2.3.0)''),
                 (''release_uri'', Str ''https://api.github.com/releases/1'')],
      calls = [ListTags 100,
               CreateTag \<lparr>tp_tag = ''release(2.3.0)'',
                          tp_message = ''release(2.3.0)'' @ newline @ newline @ ''Initial tag'',
                          tp_object = ''abc123'', tp_type = ''commit''\<rparr>,
               CreateRef ''refs/tags/release(2.3.0)'' ''0a1b2c'',
               CreateRelease \<lparr>rp_name = ''release(2.3.0)'', rp_body = ''Initial tag'',
                              rp_tag_name = ''release(2.3.0)'', rp_draft = False,
                              rp_prerelease = False\<rparr>]\<rparr>"
  by (simp add: parenEnv_def run_eval example_extractVersion js_string_eval js_regexp_eval)

lemma paren_second_run:
  "run (nextEnv parenEnv ''release(2.3.0)'') =
     \<lparr>exit = Completed,
      outputs = [(''version'', Str ''2.3.0''), (''tag_name'', Str ''release(2.3.0)''),
                 (''tag_revision'', Number (Num 1)), (''tag_sha'', Str ''0a1b2c''),
                 (''tag_uri'', Str ''https://api.github.com/refs/tags/release(2.3.0)''),
                 (''release_uri'', Str ''https://api.github.com/releases/1'')],
      calls = [ListTags 100,
               CompareCommits ''release(2.3.0)'' ''abc123'',
               CreateTag \<lparr>tp_tag = ''release(2.3.0)'',
                          tp_message = ''release(2.3.0)'' @ newline @ newline @
                            ''* Fix the parser (octocat)'' @ newline @ ''* Bump the version'',
                          tp_object = ''abc123'', tp_type = ''commit''\<rparr>,
               CreateRef ''refs/tags/release(2.3.0)'' ''0a1b2c'',
               CreateRelease \<lparr>rp_name = ''release(2.3.0)'',
                              rp_body = ''* Fix the parser (octocat)'' @ newline @
                                ''* Bump the version'',
                              rp_tag_name = ''release(2.3.0)'', rp_draft = False,
                              rp_prerelease = False\<rparr>]\<rparr>"
  by (simp add: parenEnv_def run_def extractVersion_nextEnv example_extractVersion findTag_def
        resolve_def publish_def create_def getRepoTags_def getTagMessage_def tagPattern_def
        tagName_def tagRevision_def changelogFrom_def prereleaseFlag_def falsy_def group_def
        natToString_def digitsOf.simps digitChar_def semverTable_def newline_def Let_def
        nextEnv_fields example_fields exampleCommits_def js_string_eval js_regexp_eval)

theorem second_run_creates_again_counterexample:
  "extractVersion parenEnv = Inr ''2.3.0''
   \<and> tag_format parenEnv = ''release({version})''
   \<and> exit (run parenEnv) = Completed
   \<and> map_of (outputs (run parenEnv)) ''tag_name'' = Some (Str ''release(2.3.0)'')
   \<and> tagPattern (tag_format parenEnv) ''2.3.0'' = ''^release(2.3.0)$''
   \<and> projr (jsRegExp ''^release(2.3.0)$'' []) (toLowerCase (trim ''release(2.3.0)'')) = None
   \<and> run (nextEnv parenEnv ''release(2.3.0)'') \<noteq>
       \<lparr>exit = AbortTagAtCommit, outputs = [(''version'', Str ''2.3.0'')],
        calls = [ListTags 100]\<rparr>
   \<and> CreateTag \<lparr>tp_tag = ''release(2.3.0)'',
                 tp_message = ''release(2.3.0)'' @ newline @ newline @
                   ''* Fix the parser (octocat)'' @ newline @ ''* Bump the version'',
                 tp_object = ''abc123'', tp_type = ''commit''\<rparr>
       \<in> set (calls (run (nextEnv parenEnv ''release(2.3.0)'')))"
  by (simp add: paren_first_run paren_second_run paren_no_match)
     (simp add: parenEnv_def example_extractVersion example_fields paren_tagPattern)

section \<open>The endpoints of the changelog\<close>

lemma resolve_publish:
  assumes "m = None \<or> (Some (mt_sha (the m)) \<noteq> context_sha env
             \<and> mt_name (the m) \<noteq> tagName (tag_format env) version (tagRevision m))"
    and "context_sha env = Some sha" and "sha \<noteq> []"
  shows "resolve env version tags m =
           publish env version tags (tagName (tag_format env) version (tagRevision m))
             (tagRevision m) sha"
  using assms by (auto simp: resolve_def Let_def falsy_def)

lemma create_calls:
  "\<exists>rest. calls (create env version tName tRevision sha changelog) =
            ListTags 100 # fst changelog @ rest \<and> (\<forall>b h. CompareCommits b h \<notin> set rest)"
  by (auto simp: create_def Let_def split: sum.splits)

lemma getTagMessage_calls:
  "fst (getTagMessage env from to) =
     (if falsy from \<or> falsy to then [] else [CompareCommits (the from) (the to)])"
  by (auto simp: getTagMessage_def split: sum.splits)

lemma example_extractVersion_1: "extractVersion (exampleEnv tagFormat ''1.0.0'' tags) = Inr ''1.0.0''"
  by (simp add: extractVersion_def example_eval js_regexp_eval group_def falsy_def)

lemma example_extractVersion_03: "extractVersion (exampleEnv tagFormat ''0.3.0'' tags) = Inr ''0.3.0''"
  by (simp add: extractVersion_def example_eval js_regexp_eval group_def falsy_def)

lemma example_findTag_revision:
  "findTag (exampleEnv ''v{version}-{revision}'' ''2.3.0'' twoTags) ''2.3.0'' =
     Inr (twoTags, Some revisionMatch)"
  by (simp add: findTag_def getRepoTags_def example_fields tagPattern_def js_regexp_eval
        js_string_eval twoTags_def revisionMatch_def)

lemma example_tagRevision: "tagRevision (Some revisionMatch) = Num 2"
  by (simp add: tagRevision_def revisionMatch_def group_def parseInt_def isWhiteSpace_def
        digitValue_def radixValue_def toNumber_def roundToDouble_def Let_def)

lemma example_tagName: "tagName ''v{version}-{revision}'' ''2.3.0'' (Num 2) = ''v2.3.0-2''"
  by (simp add: tagName_def js_string_eval natToString_def digitsOf.simps digitChar_def Let_def)

text \<open>
  Claim C7. A run reaches the changelog when the version is extracted, the tags are fetched,
  neither guard returns and the commit SHA is present. The changelog builder is then called
  with the name of the first tag of the fetched list as the "from" reference, \<^verbatim>\<open>null\<close> for an
  empty list, and the commit SHA as the "to" reference; the matching tag plays no part in the
  choice. With no tags there is no comparison; with a first tag of non-empty name the call
  after the tag list is the comparison of that name with the commit SHA.
\<close>

theorem changelog_endpoints:
  assumes "extractVersion env = Inr version"
    and "findTag env version = Inr (tags, m)"
    and "m = None \<or> (Some (mt_sha (the m)) \<noteq> context_sha env
             \<and> mt_name (the m) \<noteq> tagName (tag_format env) version (tagRevision m))"
    and "context_sha env = Some sha" and "sha \<noteq> []"
  shows "run env =
           create env version (tagName (tag_format env) version (tagRevision m)) (tagRevision m) sha
             (getTagMessage env (case tags of [] \<Rightarrow> None | t # ts \<Rightarrow> Some (name t)) (Some sha))
         \<and> (tags = [] \<longrightarrow> (\<forall>b h. CompareCommits b h \<notin> set (calls (run env))))
         \<and> (\<forall>t ts. tags = t # ts \<and> name t \<noteq> [] \<longrightarrow>
               take 2 (calls (run env)) = [ListTags 100, CompareCommits (name t) sha])"
proof -
  let ?c = "getTagMessage env (changelogFrom tags) (Some sha)"
  let ?n = "tagName (tag_format env) version (tagRevision m)"
  have r: "run env = create env version ?n (tagRevision m) sha ?c"
    using assms by (simp add: run_found resolve_publish publish_def)
  obtain rest where rest: "calls (run env) = ListTags 100 # fst ?c @ rest"
      "\<forall>b h. CompareCommits b h \<notin> set rest"
    using create_calls [of env version ?n "tagRevision m" sha ?c] r by auto
  have "tags = [] \<longrightarrow> (\<forall>b h. CompareCommits b h \<notin> set (calls (run env)))"
    using rest by (auto simp: getTagMessage_calls changelogFrom_def falsy_def)
  moreover have "\<forall>t ts. tags = t # ts \<and> name t \<noteq> [] \<longrightarrow>
               take 2 (calls (run env)) = [ListTags 100, CompareCommits (name t) sha]"
    using rest assms(5) by (auto simp: getTagMessage_calls changelogFrom_def falsy_def)
  ultimately show ?thesis using r by (simp add: changelogFrom_def)
qed

theorem changelog_endpoints_witness:
  "extractVersion (exampleEnv ''v{version}-{revision}'' ''2.3.0'' twoTags) = Inr ''2.3.0''
   \<and> findTag (exampleEnv ''v{version}-{revision}'' ''2.3.0'' twoTags) ''2.3.0''
       = Inr (twoTags, Some revisionMatch)
   \<and> Some (mt_sha revisionMatch) \<noteq> Some ''abc123''
   \<and> mt_name revisionMatch \<noteq> ''v2.3.0-2''
   \<and> context_sha (exampleEnv ''v{version}-{revision}'' ''2.3.0'' twoTags) = Some ''abc123''
   \<and> take 2 (calls (run (exampleEnv ''v{version}-{revision}'' ''2.3.0'' twoTags)))
       = [ListTags 100, CompareCommits ''nightly'' ''abc123'']"
proof -
  let ?env = "exampleEnv ''v{version}-{revision}'' ''2.3.0'' twoTags"
  have h1: "extractVersion ?env = Inr ''2.3.0''"
    by (rule example_extractVersion)
  have h2: "findTag ?env ''2.3.0'' = Inr (twoTags, Some revisionMatch)"
    by (rule example_findTag_revision)
  have h3: "Some revisionMatch = None \<or>
      (Some (mt_sha (the (Some revisionMatch))) \<noteq> context_sha ?env
       \<and> mt_name (the (Some revisionMatch)) \<noteq>
           tagName (tag_format ?env) ''2.3.0'' (tagRevision (Some revisionMatch)))"
    by (simp add: example_fields example_tagRevision example_tagName) (simp add: revisionMatch_def)
  have h4: "context_sha ?env = Some ''abc123''"
    by (simp add: example_fields)
  have "take 2 (calls (run ?env)) = [ListTags 100, CompareCommits ''nightly'' ''abc123'']"
    using changelog_endpoints [OF h1 h2 h3 h4] by (auto simp: twoTags_def)
  then show ?thesis
    using h1 h2 h4 by (simp add: revisionMatch_def)
qed

section \<open>The prerelease flag\<close>

lemma create_release_flag:
  "CreateRelease r \<in> set (calls (create env version tName tRevision sha changelog)) \<Longrightarrow>
     fst changelog = [] \<or> (\<exists>b h. fst changelog = [CompareCommits b h]) \<Longrightarrow>
     rp_prerelease r = prereleaseFlag (semver_parse env version)"
  by (auto simp: create_def Let_def split: sum.splits)

lemma resolve_release_flag:
  "CreateRelease r \<in> set (calls (resolve env version tags m)) \<Longrightarrow>
     rp_prerelease r = prereleaseFlag (semver_parse env version)"
  by (auto simp: resolve_def publish_def Let_def getTagMessage_calls
        dest!: create_release_flag split: if_splits)

lemma findTag_Inl_calls: "findTag env v = Inl r \<Longrightarrow> CreateRelease p \<notin> set (calls r)"
  by (auto simp: findTag_def Let_def split: if_splits sum.splits option.splits)

text \<open>
  Claim C8. Whenever a run asks GitHub for a release, the prerelease flag of the request is
  true exactly when \<^verbatim>\<open>semver.parse\<close> accepts the extracted version and the parsed version has
  major component 0 or a non-empty prerelease part; it is false when the version does not
  parse.
\<close>

theorem release_prerelease_flag:
  assumes "CreateRelease r \<in> set (calls (run env))"
    and "extractVersion env = Inr version"
  shows "rp_prerelease r =
           (\<exists>v. semver_parse env version = Some v \<and> (major v = 0 \<or> prerelease v \<noteq> []))"
proof -
  from assms have "rp_prerelease r = prereleaseFlag (semver_parse env version)"
    by (cases "findTag env version")
       (auto simp: run_def dest: findTag_Inl_calls resolve_release_flag)
  then show ?thesis
    by (cases "semver_parse env version") (simp_all add: prereleaseFlag_def)
qed

theorem release_prerelease_flag_witness:
  "CreateRelease \<lparr>rp_name = ''v0.3.0'', rp_body = ''Initial tag'', rp_tag_name = ''v0.3.0'',
                   rp_draft = False, rp_prerelease = True\<rparr>
     \<in> set (calls (run (exampleEnv ''v{version}'' ''0.3.0'' [])))
   \<and> extractVersion (exampleEnv ''v{version}'' ''0.3.0'' []) = Inr ''0.3.0''
   \<and> (\<exists>v. semver_parse (exampleEnv ''v{version}'' ''0.3.0'' []) ''0.3.0'' = Some v
          \<and> (major v = 0 \<or> prerelease v \<noteq> []))"
proof -
  let ?env = "exampleEnv ''v{version}'' ''0.3.0'' []"
  let ?r = "\<lparr>rp_name = ''v0.3.0'', rp_body = ''Initial tag'', rp_tag_name = ''v0.3.0'',
              rp_draft = False, rp_prerelease = True\<rparr>"
  have h1: "CreateRelease ?r \<in> set (calls (run ?env))"
    by (simp add: run_eval example_extractVersion_03 js_string_eval js_regexp_eval)
  have h2: "extractVersion ?env = Inr ''0.3.0''"
    by (rule example_extractVersion_03)
  from release_prerelease_flag [OF h1 h2] h1 h2 show ?thesis by simp
qed

section \<open>The second guard compares names exactly\<close>

lemma example_findTag_upper:
  "findTag (exampleEnv ''v{version}'' ''1.0.0'' upperTag) ''1.0.0'' = Inr (upperTag, Some upperMatch)"
  by (simp add: findTag_def getRepoTags_def example_fields tagPattern_def js_regexp_eval
        js_string_eval upperTag_def upperMatch_def)

lemma example_tagName_upper:
  "tagName ''v{version}'' ''1.0.0'' (tagRevision (Some upperMatch)) = ''v1.0.0''"
  by (simp add: tagName_def tagRevision_def upperMatch_def js_string_eval natToString_def
        digitsOf.simps digitChar_def Let_def)

text \<open>
  Claim C10. The search compares the trimmed, lower-cased name of a tag with the pattern, the
  guard of line 123 compares the name as it is with the desired name. When the matching tag
  differs from the desired name, but only in case or surrounding white space, and its SHA is
  not the SHA of the commit, neither guard returns: the run goes on to lines 129 and
  following, and once the changelog is there it asks GitHub for a tag object with the desired
  name.
\<close>

theorem name_guard_is_exact:
  assumes "extractVersion env = Inr version"
    and "findTag env version = Inr (tags, Some m)"
    and "context_sha env = Some sha" and "sha \<noteq> []" and "mt_sha m \<noteq> sha"
    and "mt_name m \<noteq> tagName (tag_format env) version (tagRevision (Some m))"
    and "toLowerCase (trim (mt_name m)) =
         toLowerCase (trim (tagName (tag_format env) version (tagRevision (Some m))))"
  shows "run env =
           publish env version tags (tagName (tag_format env) version (tagRevision (Some m)))
             (tagRevision (Some m)) sha
         \<and> exit (run env) \<noteq> AbortTagMatches
         \<and> (\<forall>msg. snd (getTagMessage env (changelogFrom tags) (Some sha)) = Inr msg \<longrightarrow>
              CreateTag \<lparr>tp_tag = tagName (tag_format env) version (tagRevision (Some m)),
                         tp_message = tagName (tag_format env) version (tagRevision (Some m))
                                      @ newline @ newline @ msg,
                         tp_object = sha, tp_type = ''commit''\<rparr> \<in> set (calls (run env)))"
proof -
  have r: "run env =
           publish env version tags (tagName (tag_format env) version (tagRevision (Some m)))
             (tagRevision (Some m)) sha"
    using assms by (simp add: run_found resolve_publish)
  then show ?thesis
    by (auto simp: publish_def create_def Let_def split: sum.splits)
qed

theorem name_guard_is_exact_witness:
  "extractVersion (exampleEnv ''v{version}'' ''1.0.0'' upperTag) = Inr ''1.0.0''
   \<and> findTag (exampleEnv ''v{version}'' ''1.0.0'' upperTag) ''1.0.0'' = Inr (upperTag, Some upperMatch)
   \<and> context_sha (exampleEnv ''v{version}'' ''1.0.0'' upperTag) = Some ''abc123''
   \<and> mt_sha upperMatch \<noteq> ''abc123''
   \<and> mt_name upperMatch = ''V1.0.0''
   \<and> tagName ''v{version}'' ''1.0.0'' (tagRevision (Some upperMatch)) = ''v1.0.0''
   \<and> toLowerCase (trim ''V1.0.0'') = toLowerCase (trim ''v1.0.0'')
   \<and> snd (getTagMessage (exampleEnv ''v{version}'' ''1.0.0'' upperTag) (changelogFrom upperTag)
            (Some ''abc123''))
       = Inr (''* Fix the parser (octocat)'' @ newline @ ''* Bump the version'')
   \<and> exit (run (exampleEnv ''v{version}'' ''1.0.0'' upperTag)) \<noteq> AbortTagMatches
   \<and> CreateTag \<lparr>tp_tag = ''v1.0.0'',
                 tp_message = ''v1.0.0'' @ newline @ newline @
                   ''* Fix the parser (octocat)'' @ newline @ ''* Bump the version'',
                 tp_object = ''abc123'', tp_type = ''commit''\<rparr>
       \<in> set (calls (run (exampleEnv ''v{version}'' ''1.0.0'' upperTag)))"
proof -
  let ?env = "exampleEnv ''v{version}'' ''1.0.0'' upperTag"
  have h1: "extractVersion ?env = Inr ''1.0.0''"
    by (rule example_extractVersion_1)
  have h2: "findTag ?env ''1.0.0'' = Inr (upperTag, Some upperMatch)"
    by (rule example_findTag_upper)
  have h3: "context_sha ?env = Some ''abc123''"
    by (simp add: example_fields)
  have h4: "''abc123'' \<noteq> []" by simp
  have h5: "mt_sha upperMatch \<noteq> ''abc123''" by (simp add: upperMatch_def)
  have n: "tagName (tag_format ?env) ''1.0.0'' (tagRevision (Some upperMatch)) = ''v1.0.0''"
    by (simp add: example_fields example_tagName_upper)
  have h6: "mt_name upperMatch \<noteq> tagName (tag_format ?env) ''1.0.0'' (tagRevision (Some upperMatch))"
    by (simp add: n) (simp add: upperMatch_def)
  have h7: "toLowerCase (trim (mt_name upperMatch)) =
      toLowerCase (trim (tagName (tag_format ?env) ''1.0.0'' (tagRevision (Some upperMatch))))"
    by (simp add: n) (simp add: upperMatch_def js_string_eval)
  note g = name_guard_is_exact [OF h1 h2 h3 h4 h5 h6 h7, unfolded n]
  have m: "snd (getTagMessage ?env (changelogFrom upperTag) (Some ''abc123''))
       = Inr (''* Fix the parser (octocat)'' @ newline @ ''* Bump the version'')"
    by (simp add: getTagMessage_def changelogFrom_def upperTag_def falsy_def example_fields
          exampleCommits_def newline_def js_string_eval)
  from g m have "exit (run ?env) \<noteq> AbortTagMatches" by blast
  moreover from g m have "CreateTag \<lparr>tp_tag = ''v1.0.0'',
                 tp_message = ''v1.0.0'' @ newline @ newline @
                   ''* Fix the parser (octocat)'' @ newline @ ''* Bump the version'',
                 tp_object = ''abc123'', tp_type = ''commit''\<rparr>
       \<in> set (calls (run ?env))" by blast
  moreover have "mt_name upperMatch = ''V1.0.0''" by (simp add: upperMatch_def)
  moreover have "toLowerCase (trim ''V1.0.0'') = toLowerCase (trim ''v1.0.0'')"
    by (simp add: js_string_eval)
  ultimately show ?thesis
    using m h1 h2 h3 h5 example_tagName_upper by blast
qed

section \<open>The changelog builder\<close>

lemma appendCommits_concat:
  "appendCommits cs msg =
     msg @ concat (map (\<lambda>c. newline @ commitLine c) (List.map_filter id cs))"
  by (induction cs msg rule: appendCommits.induct)
     (simp_all add: List.map_filter_simps commitLine_def split: option.splits)

lemma concat_joinLines:
  "ls \<noteq> [] \<Longrightarrow> concat (map (\<lambda>l. newline @ l) ls) = newline @ joinLines ls"
  by (induction ls rule: joinLines.induct) simp_all

lemma trim_newline: "trim (newline @ s) = trim s"
  by (simp add: trim_def newline_def isWhiteSpace_def)

lemma trim_appendCommits: "trim (appendCommits cs []) = specChangelog cs"
proof (cases "List.map_filter id cs = []")
  case True
  then show ?thesis by (simp add: appendCommits_concat specChangelog_def)
next
  case False
  then have "concat (map (\<lambda>c. newline @ commitLine c) (List.map_filter id cs)) =
      newline @ joinLines (map commitLine (List.map_filter id cs))"
    using concat_joinLines [of "map commitLine (List.map_filter id cs)"]
    by (simp add: comp_def)
  then show ?thesis
    by (simp add: appendCommits_concat specChangelog_def trim_newline)
qed

text \<open>
  Claim C6. \<open>getTagMessage\<close> returns the text "Initial tag" when one of the two references
  is absent (\<^verbatim>\<open>null\<close>, \<^verbatim>\<open>undefined\<close> or the empty string) and when the comparison answers
  without commits. When the comparison answers with commits, the result is the changelog in
  the words of the specification, \<open>specChangelog\<close>: the lines of the commits in the order of
  the answer, joined with newlines and trimmed.
\<close>

theorem changelog_builder:
  "(falsy from \<or> falsy to \<longrightarrow> getTagMessage env from to = ([], Inr ''Initial tag''))
   \<and> (\<not> falsy from \<and> \<not> falsy to \<and> compareCommits env (the from) (the to) = Inr c
        \<and> (commits c = None \<or> commits c = Some [])
      \<longrightarrow> snd (getTagMessage env from to) = Inr ''Initial tag'')
   \<and> (\<not> falsy from \<and> \<not> falsy to \<and> compareCommits env (the from) (the to) = Inr c
        \<and> commits c = Some cs \<and> cs \<noteq> []
      \<longrightarrow> snd (getTagMessage env from to) = Inr (specChangelog cs))"
  by (auto simp: getTagMessage_def trim_appendCommits)


theorem changelog_builder_witness:
  "falsy None
   \<and> getTagMessage (exampleEnv ''v{version}'' ''2.3.0'' []) None (Some ''abc123'')
       = ([], Inr ''Initial tag'')
   \<and> \<not> falsy (Some ''nightly'') \<and> \<not> falsy (Some ''abc123'')
   \<and> compareCommits ((exampleEnv ''v{version}'' ''2.3.0'' twoTags)
         \<lparr>compareCommits := \<lambda>base head. Inr \<lparr>commits = Some []\<rparr>\<rparr>) ''nightly'' ''abc123''
       = Inr \<lparr>commits = Some []\<rparr>
   \<and> snd (getTagMessage ((exampleEnv ''v{version}'' ''2.3.0'' twoTags)
         \<lparr>compareCommits := \<lambda>base head. Inr \<lparr>commits = Some []\<rparr>\<rparr>)
           (Some ''nightly'') (Some ''abc123''))
       = Inr ''Initial tag''
   \<and> compareCommits (exampleEnv ''v{version}'' ''2.3.0'' twoTags) ''nightly'' ''abc123''
       = Inr \<lparr>commits = Some exampleCommits\<rparr>
   \<and> exampleCommits \<noteq> []
   \<and> specChangelog exampleCommits = ''* Fix the parser (octocat)'' @ newline @ ''* Bump the version''
   \<and> snd (getTagMessage (exampleEnv ''v{version}'' ''2.3.0'' twoTags) (Some ''nightly'')
            (Some ''abc123''))
       = Inr (''* Fix the parser (octocat)'' @ newline @ ''* Bump the version'')"
proof -
  let ?env = "exampleEnv ''v{version}'' ''2.3.0'' twoTags"
  let ?quiet = "?env\<lparr>compareCommits := \<lambda>base head. Inr \<lparr>commits = Some []\<rparr>\<rparr>"
  have s: "specChangelog exampleCommits =
      ''* Fix the parser (octocat)'' @ newline @ ''* Bump the version''"
    by (simp add: specChangelog_def exampleCommits_def List.map_filter_simps commitLine_def
          newline_def js_string_eval)
  have c: "compareCommits ?env (the (Some ''nightly'')) (the (Some ''abc123''))
      = Inr \<lparr>commits = Some exampleCommits\<rparr>"
    by (simp add: example_fields)
  have c0: "compareCommits ?quiet (the (Some ''nightly'')) (the (Some ''abc123''))
      = Inr \<lparr>commits = Some []\<rparr>"
    by simp
  have n: "exampleCommits \<noteq> []" by (simp add: exampleCommits_def)
  have f: "\<not> falsy (Some ''nightly'')" "\<not> falsy (Some ''abc123'')" "falsy None"
    by (simp_all add: falsy_def)
  from changelog_builder [of None "Some ''abc123''" "exampleEnv ''v{version}'' ''2.3.0'' []"] f
  have a: "getTagMessage (exampleEnv ''v{version}'' ''2.3.0'' []) None (Some ''abc123'')
       = ([], Inr ''Initial tag'')" by blast
  from changelog_builder [of "Some ''nightly''" "Some ''abc123''" ?env
        "\<lparr>commits = Some exampleCommits\<rparr>" exampleCommits] f c n
  have b: "snd (getTagMessage ?env (Some ''nightly'') (Some ''abc123''))
      = Inr (specChangelog exampleCommits)" by simp
  from changelog_builder [of "Some ''nightly''" "Some ''abc123''" ?quiet
        "\<lparr>commits = Some []\<rparr>"] f c0
  have z: "snd (getTagMessage ?quiet (Some ''nightly'') (Some ''abc123'')) = Inr ''Initial tag''"
    by simp
  show ?thesis using a b z s c c0 n f by simp
qed

section \<open>The placeholders of the tag format\<close>

lemma indexOf_SomeD:
  "indexOf s pat = Some i \<Longrightarrow>
     i \<le> length s \<and> prefix pat (drop i s) \<and> (\<forall>j<i. \<not> prefix pat (drop j s))"
proof (induction s arbitrary: i)
  case Nil
  then show ?case by (auto split: if_splits)
next
  case (Cons c cs)
  show ?case
  proof (cases "prefix pat (c # cs)")
    case True
    with Cons.prems show ?thesis by simp
  next
    case False
    with Cons.prems obtain i' where i': "indexOf cs pat = Some i'" "i = Suc i'"
      by auto
    from Cons.IH [OF i'(1)] False i'(2) show ?thesis
      by (auto simp: less_Suc_eq_0_disj)
  qed
qed

lemma indexOf_le:
  "prefix pat (drop j s) \<Longrightarrow> j \<le> length s \<Longrightarrow> \<exists>i\<le>j. indexOf s pat = Some i"
proof (induction s arbitrary: j)
  case Nil
  then show ?case by simp
next
  case (Cons c cs)
  show ?case
  proof (cases "prefix pat (c # cs)")
    case True
    then show ?thesis by simp
  next
    case False
    with Cons.prems obtain j' where j': "j = Suc j'"
      by (cases j) auto
    with Cons.prems have "prefix pat (drop j' cs)" "j' \<le> length cs" by simp_all
    from Cons.IH [OF this] obtain i where "i \<le> j'" "indexOf cs pat = Some i" by blast
    with False j' show ?thesis by simp
  qed
qed

lemma indexOf_None: "indexOf s pat = None \<Longrightarrow> \<not> prefix pat (drop j s) \<or> length s < j"
  using indexOf_le [of pat j s] by (cases "j \<le> length s") auto

lemma sublist_occurrence:
  "sublist pat P \<Longrightarrow> \<exists>j. j + length pat \<le> length P \<and> prefix pat (drop j P)"
proof -
  assume "sublist pat P"
  then obtain ps ss where "P = ps @ pat @ ss" by (auto simp: sublist_def)
  then have "length ps + length pat \<le> length P \<and> prefix pat (drop (length ps) P)" by simp
  then show ?thesis by blast
qed

lemma occurrence_split:
  assumes "prefix pat (drop k s)" and "k \<le> length s"
  shows "s = take k s @ pat @ drop (k + length pat) s"
proof -
  from assms(1) obtain r where r: "drop k s = pat @ r" by (auto simp: prefix_def)
  then have "drop (k + length pat) s = r"
    by (metis add.commute append_eq_conv_conj drop_drop)
  with r show ?thesis by (metis append_take_drop_id)
qed

lemma replace_at:
  "indexOf s pat = Some k \<Longrightarrow>
     replace s pat rep =
       take k s @ getSubstitution pat (take k s) (drop (k + length pat) s) rep
       @ drop (k + length pat) s"
  by (simp add: replace_def Let_def)

lemma replace_none: "indexOf s pat = None \<Longrightarrow> replace s pat rep = s"
  by (simp add: replace_def)

text \<open>An occurrence inside the left part: the first occurrence is inside it too.\<close>

lemma replace_in_left:
  assumes "sublist y P"
  shows "\<exists>k. k + length y \<le> length P \<and> prefix y (drop k P) \<and>
           replace (P @ rest) y r =
             take k P @ getSubstitution y (take k P) (drop (k + length y) P @ rest) r
             @ drop (k + length y) P @ rest"
proof -
  from sublist_occurrence [OF assms] obtain j where
    j: "j + length y \<le> length P" "prefix y (drop j P)" by blast
  then have "prefix y (drop j (P @ rest))" by (simp add: prefix_def) auto
  with j obtain k where k: "k \<le> j" "indexOf (P @ rest) y = Some k"
    using indexOf_le [of y j "P @ rest"] by auto
  from indexOf_SomeD [OF k(2)] have "prefix y (drop k (P @ rest))" by simp
  moreover have "drop k (P @ rest) = drop k P @ rest" using k j by simp
  moreover have "length y \<le> length (drop k P)" using k j by simp
  ultimately have "prefix y (drop k P)"
    by (metis prefix_length_prefix prefix_append prefix_order.order_refl prefixI)
  moreover have "k + length y \<le> length P" using k j by simp
  moreover have "replace (P @ rest) y r =
             take k P @ getSubstitution y (take k P) (drop (k + length y) P @ rest) r
             @ drop (k + length y) P @ rest"
    using k j replace_at [OF k(2), of r] by simp
  ultimately show ?thesis by blast
qed

lemma placeholder_props:
  assumes "x = ''{version}'' \<or> x = ''{revision}''"
  shows "hd x = CHR ''{''" and "CHR ''{'' \<notin> set (tl x)" and "0 < length x"
    and "1 < length x"
  using assms by auto

lemma placeholder_first: "x = ''{version}'' \<or> x = ''{revision}'' \<Longrightarrow> x ! 0 = CHR ''{''"
  by auto

lemma placeholder_inner:
  assumes "x = ''{version}'' \<or> x = ''{revision}''" and "0 < i" and "i < length x"
  shows "x ! i \<noteq> CHR ''{''"
proof -
  from assms(2,3) have "x ! i = tl x ! (i - 1)" "i - 1 < length (tl x)"
    by (cases x; cases i; simp)+
  then have "x ! i \<in> set (tl x)" by (metis nth_mem)
  with placeholder_props(2) [OF assms(1)] show ?thesis by auto
qed

lemma placeholder_second:
  "x = ''{version}'' \<or> x = ''{revision}'' \<Longrightarrow> y = ''{version}'' \<or> y = ''{revision}''
   \<Longrightarrow> x ! 1 = y ! 1 \<Longrightarrow> x = y"
  by auto

lemma prefix_nth:
  assumes "prefix y (drop k s)" and "j < length y"
  shows "s ! (k + j) = y ! j" and "k + j < length s"
proof -
  from assms(1) obtain r where r: "drop k s = y @ r" by (auto simp: prefix_def)
  then have "length y \<le> length s - k" by (metis length_append length_drop le_add1)
  with assms(2) show l: "k + j < length s" by simp
  have "drop k s ! j = y ! j" using r assms(2) by (simp add: nth_append)
  with l show "s ! (k + j) = y ! j" by simp
qed

text \<open>Two occurrences of placeholders in a string do not overlap.\<close>

lemma no_overlap:
  assumes x: "x = ''{version}'' \<or> x = ''{revision}''"
    and y: "y = ''{version}'' \<or> y = ''{revision}''"
    and occ: "prefix y (drop k (a @ x @ b))"
  shows "k + length y \<le> length a \<or> length a + length x \<le> k \<or> (k = length a \<and> x = y)"
proof (rule ccontr)
  assume neg: "\<not> ?thesis"
  let ?s = "a @ x @ b"
  have xs: "?s ! (length a + i) = x ! i" if "i < length x" for i
    using that by (simp add: nth_append)
  consider "k < length a" | "length a < k" | "k = length a" by linarith
  then show False
  proof cases
    case 1
    with neg have i: "0 < length a - k" "length a - k < length y" by auto
    from 1 have e: "k + (length a - k) = length a + 0" by simp
    have "x ! 0 = ?s ! (length a + 0)"
      using xs [OF placeholder_props(3) [OF x]] by (rule sym)
    also have "\<dots> = y ! (length a - k)"
      using prefix_nth(1) [OF occ i(2)] unfolding e .
    finally show False
      using placeholder_first [OF x] placeholder_inner [OF y i] by metis
  next
    case 2
    with neg have i: "0 < k - length a" "k - length a < length x" by auto
    from 2 have e: "length a + (k - length a) = k + 0" by simp
    have "y ! 0 = ?s ! (k + 0)"
      using prefix_nth(1) [OF occ placeholder_props(3) [OF y]] by (rule sym)
    also have "\<dots> = x ! (k - length a)"
      using xs [OF i(2)] unfolding e .
    finally show False
      using placeholder_first [OF y] placeholder_inner [OF x i] by metis
  next
    case 3
    have "y ! 1 = ?s ! (k + 1)"
      using prefix_nth(1) [OF occ placeholder_props(4) [OF y]] by (rule sym)
    also have "\<dots> = x ! 1"
      using xs [OF placeholder_props(4) [OF x]] unfolding 3 .
    finally have "x = y" using placeholder_second [OF x y] by metis
    with 3 neg show False by blast
  qed
qed

lemma occ_sublist: "prefix w (drop j A) \<Longrightarrow> sublist w A"
proof -
  assume "prefix w (drop j A)"
  then obtain r where "drop j A = w @ r" by (auto simp: prefix_def)
  then have "A = take j A @ w @ r" by (metis append_take_drop_id)
  then show ?thesis by (metis sublist_appendI)
qed

lemma occ_take:
  assumes "prefix w (drop j A)" and "j + length w \<le> k"
  shows "prefix w (drop j (take k A))"
proof -
  from assms(1) obtain r where r: "drop j A = w @ r" by (auto simp: prefix_def)
  have "drop j (take k A) = take (k - j) (drop j A)" by (simp add: drop_take)
  also have "\<dots> = w @ take (k - j - length w) r" using r assms(2) by simp
  finally show ?thesis by simp
qed

lemma occ_shorter:
  assumes "prefix w (drop k (P @ rest))" and "k + length w \<le> length P"
  shows "prefix w (drop k P)"
proof -
  from assms(1) obtain r where r: "drop k (P @ rest) = w @ r" by (auto simp: prefix_def)
  have "drop k P = take (length P - k) (drop k (P @ rest))" using assms(2) by simp
  also have "\<dots> = w @ take (length P - k - length w) r" using r assms(2) by simp
  finally show ?thesis by simp
qed

lemma sublist_left: "sublist w A \<Longrightarrow> sublist w (A @ B)"
  by (auto simp: sublist_append)

lemma sublist_right: "sublist w B \<Longrightarrow> sublist w (A @ B)"
  by (auto simp: sublist_append)

text \<open>
  One replacement in a string with an occurrence of a placeholder \<open>x\<close> at \<open>p\<close>: the
  replaced occurrence of \<open>y\<close> lies before it, after it, nowhere, or is this occurrence.
\<close>

lemma replace_cases:
  assumes x: "x = ''{version}'' \<or> x = ''{revision}''"
    and y: "y = ''{version}'' \<or> y = ''{revision}''"
  shows "(\<exists>p'. replace (p @ x @ q) y r = p' @ x @ q \<and> sublist y p
            \<and> (\<forall>w. (w = ''{version}'' \<or> w = ''{revision}'') \<and> w \<noteq> y \<and> sublist w p
                  \<longrightarrow> sublist w p'))
       \<or> (\<exists>a b z. q = a @ y @ b \<and> replace (p @ x @ q) y r = p @ x @ a @ z @ b \<and> \<not> sublist y p)
       \<or> (replace (p @ x @ q) y r = p @ x @ q \<and> \<not> sublist y p)
       \<or> (x = y \<and> \<not> sublist y p)"
proof (cases "indexOf (p @ x @ q) y")
  case None
  have "\<not> sublist y p"
  proof
    assume "sublist y p"
    from sublist_occurrence [OF this] obtain j where
      j: "j + length y \<le> length p" "prefix y (drop j p)" by blast
    then have "prefix y (drop j (p @ x @ q))" by (simp add: prefix_def) auto
    with indexOf_None [OF None, of j] j show False by simp
  qed
  with replace_none [OF None] show ?thesis by simp
next
  case (Some k)
  let ?s = "p @ x @ q"
  from indexOf_SomeD [OF Some] have occ: "prefix y (drop k ?s)"
    and first: "\<forall>j<k. \<not> prefix y (drop j ?s)" by simp_all
  have early: "\<not> sublist y p" if "length p \<le> k"
  proof
    assume "sublist y p"
    from sublist_occurrence [OF this] obtain j where
      j: "j + length y \<le> length p" "prefix y (drop j p)" by blast
    then have "prefix y (drop j ?s)" by (simp add: prefix_def) auto
    moreover from j that placeholder_props(3) [OF y] have "j < k" by linarith
    ultimately show False using first by blast
  qed
  let ?z = "getSubstitution y (take k ?s) (drop (k + length y) ?s) r"
  have rep: "replace ?s y r = take k ?s @ ?z @ drop (k + length y) ?s"
    by (rule replace_at [OF Some])
  from no_overlap [OF x y occ]
  consider "k + length y \<le> length p" | "length p + length x \<le> k" | "k = length p \<and> x = y"
    by blast
  then show ?thesis
  proof cases
    case 1
    let ?p' = "take k p @ ?z @ drop (k + length y) p"
    from occ_shorter [OF occ 1] have occp: "prefix y (drop k p)" .
    have "replace ?s y r = ?p' @ x @ q" using rep 1 by simp
    moreover have "sublist y p" using occp by (rule occ_sublist)
    moreover have "sublist w ?p'"
      if w: "w = ''{version}'' \<or> w = ''{revision}''" and wy: "w \<noteq> y" and sw: "sublist w p" for w
    proof -
      from sublist_occurrence [OF sw] obtain j where
        j: "j + length w \<le> length p" "prefix w (drop j p)" by blast
      have "p = take j p @ w @ drop (j + length w) p"
        using occurrence_split [OF j(2)] j(1) by simp
      with occp have "prefix y (drop k (take j p @ w @ drop (j + length w) p))" by simp
      from no_overlap [OF w y this] wy j(1)
      consider "k + length y \<le> j" | "j + length w \<le> k" by auto
      then show ?thesis
      proof cases
        case 1
        have "drop (j - (k + length y)) (drop (k + length y) p) = drop j p"
          using 1 by simp
        with j(2) have "sublist w (drop (k + length y) p)"
          by (metis occ_sublist)
        then show ?thesis by (intro sublist_right)
      next
        case 2
        from occ_take [OF j(2) 2] have "sublist w (take k p)" by (rule occ_sublist)
        then show ?thesis by (intro sublist_left)
      qed
    qed
    ultimately show ?thesis by blast
  next
    case 2
    let ?i = "k - (length p + length x)"
    have d: "drop k ?s = drop ?i q" using 2 by simp
    with occ have oq: "prefix y (drop ?i q)" by simp
    have iq: "?i \<le> length q"
    proof (rule ccontr)
      assume "\<not> ?i \<le> length q"
      then have "drop ?i q = []" by simp
      with oq placeholder_props(3) [OF y] show False by simp
    qed
    have q: "q = take ?i q @ y @ drop (?i + length y) q"
      by (rule occurrence_split [OF oq iq])
    have "take k ?s = p @ x @ take ?i q" using 2 by simp
    moreover have "drop (k + length y) ?s = drop (?i + length y) q" using 2 by simp
    ultimately have "replace ?s y r = p @ x @ take ?i q @ ?z @ drop (?i + length y) q"
      using rep by simp
    moreover have "\<not> sublist y p" using 2 by (intro early) simp
    ultimately show ?thesis using q by blast
  next
    case 3
    then have "\<not> sublist y p" by (intro early) simp
    with 3 show ?thesis by simp
  qed
qed

lemma replace_first:
  assumes ph: "ph = ''{version}'' \<or> ph = ''{revision}''" and first: "\<not> sublist ph a"
  shows "replace (a @ ph @ b) ph rep = a @ getSubstitution ph a b rep @ b"
proof -
  have occ: "prefix ph (drop (length a) (a @ ph @ b))" by simp
  from indexOf_le [OF occ] obtain k where
    k: "k \<le> length a" "indexOf (a @ ph @ b) ph = Some k" by auto
  from indexOf_SomeD [OF k(2)] have "prefix ph (drop k (a @ ph @ b))" by simp
  from no_overlap [OF ph ph this]
  consider "k + length ph \<le> length a" | "length a + length ph \<le> k" | "k = length a"
    by blast
  then have "k = length a"
  proof cases
    case 1
    with \<open>prefix ph (drop k (a @ ph @ b))\<close> have "prefix ph (drop k a)"
      by (rule occ_shorter)
    then have "sublist ph a" by (rule occ_sublist)
    with first show ?thesis by simp
  next
    case 2
    with k(1) placeholder_props(3) [OF ph] show ?thesis by linarith
  next
    case 3
    then show ?thesis .
  qed
  with replace_at [OF k(2), of rep] show ?thesis by simp
qed

lemma two_replacements:
  assumes ph: "ph = ''{version}'' \<or> ph = ''{revision}''" and sub: "sublist ph p"
  shows "\<exists>p' q'. replace (replace (p @ ph @ q) ''{version}'' rv) ''{revision}'' rr = p' @ ph @ q'
           \<and> (q' = q \<or> (\<exists>a b z. (q = a @ ''{version}'' @ b \<or> q = a @ ''{revision}'' @ b)
                                  \<and> q' = a @ z @ b))"
proof -
  let ?V = "''{version}''" and ?R = "''{revision}''"
  have V: "?V = ''{version}'' \<or> ?V = ''{revision}''" and R: "?R = ''{version}'' \<or> ?R = ''{revision}''"
    by simp_all
  have step1: "\<exists>P Q. replace (p @ ph @ q) ?V rv = P @ ph @ Q \<and> (ph = ?R \<longrightarrow> sublist ?R P)
      \<and> (Q = q \<or> (ph = ?R \<and> (\<exists>a b z. q = a @ ?V @ b \<and> Q = a @ z @ b)))"
  proof -
    from replace_cases [OF ph V, of p q rv]
    consider
      (before) p' where "replace (p @ ph @ q) ?V rv = p' @ ph @ q"
        "\<forall>w. (w = ''{version}'' \<or> w = ''{revision}'') \<and> w \<noteq> ?V \<and> sublist w p \<longrightarrow> sublist w p'"
    | (after) a b z where "q = a @ ?V @ b" "replace (p @ ph @ q) ?V rv = p @ ph @ a @ z @ b"
        "\<not> sublist ?V p"
    | (none) "replace (p @ ph @ q) ?V rv = p @ ph @ q"
    | (this) "ph = ?V" "\<not> sublist ?V p"
      by blast
    then show ?thesis
    proof cases
      case before
      have "ph = ?R \<longrightarrow> sublist ?R p'"
      proof
        assume "ph = ?R"
        with sub before(2) show "sublist ?R p'" by simp
      qed
      with before(1) show ?thesis by blast
    next
      case after
      with sub ph have "ph = ?R" by auto
      with after sub show ?thesis by blast
    next
      case none
      with sub show ?thesis by blast
    next
      case this
      with sub show ?thesis by simp
    qed
  qed
  then obtain P Q where PQ: "replace (p @ ph @ q) ?V rv = P @ ph @ Q"
      "ph = ?R \<longrightarrow> sublist ?R P"
      "Q = q \<or> (ph = ?R \<and> (\<exists>a b z. q = a @ ?V @ b \<and> Q = a @ z @ b))"
    by blast
  have Q: "Q = q \<or> (\<exists>a b z. (q = a @ ?V @ b \<or> q = a @ ?R @ b) \<and> Q = a @ z @ b)"
    using PQ(3) by blast
  have fin: ?thesis
    if "replace (P @ ph @ Q) ?R rr = X @ ph @ Q'"
      and "Q' = q \<or> (\<exists>a b z. (q = a @ ?V @ b \<or> q = a @ ?R @ b) \<and> Q' = a @ z @ b)"
    for X Q'
  proof -
    from that(1) have "replace (replace (p @ ph @ q) ?V rv) ?R rr = X @ ph @ Q'"
      unfolding PQ(1) .
    with that(2) show ?thesis by blast
  qed
  from replace_cases [OF ph R, of P Q rr]
  consider
    (before) p' where "replace (P @ ph @ Q) ?R rr = p' @ ph @ Q"
  | (after) a b z where "Q = a @ ?R @ b" "replace (P @ ph @ Q) ?R rr = P @ ph @ a @ z @ b"
      "\<not> sublist ?R P"
  | (none) "replace (P @ ph @ Q) ?R rr = P @ ph @ Q"
  | (this) "ph = ?R" "\<not> sublist ?R P"
    by blast
  then show ?thesis
  proof cases
    case before
    then show ?thesis using Q by (rule fin)
  next
    case after
    with PQ(2) have "ph \<noteq> ?R" by blast
    with PQ(3) have "Q = q" by blast
    with after(1) have "a @ z @ b = q \<or>
        (\<exists>a' b' z'. (q = a' @ ?V @ b' \<or> q = a' @ ?R @ b') \<and> a @ z @ b = a' @ z' @ b')"
      by blast
    with after(2) show ?thesis by (rule fin)
  next
    case none
    then show ?thesis using Q by (rule fin)
  next
    case this
    with PQ(2) show ?thesis by blast
  qed
qed

lemma toLowerCase_append: "toLowerCase (a @ b) = toLowerCase a @ toLowerCase b"
  by (simp add: toLowerCase_def)

lemma toLowerCase_placeholder:
  "ph = ''{version}'' \<or> ph = ''{revision}'' \<Longrightarrow> toLowerCase ph = ph"
  by (auto simp: toLowerCase_def toLowerChar_def isUpperChar_def)

text \<open>
  Claim C9. A replacement acts on the first occurrence of its placeholder: when \<open>ph\<close> does
  not occur in \<open>a\<close>, the occurrence after \<open>a\<close> is replaced and the text \<open>b\<close> behind it is
  kept. An occurrence of a placeholder that has an earlier occurrence of the same
  placeholder before it is still there in the desired tag name and in the tag pattern; the
  text \<open>q\<close> behind it is unchanged, or has one placeholder replaced, and is lower-cased in
  the pattern.
\<close>

theorem later_placeholders_stay:
  "((ph = ''{version}'' \<or> ph = ''{revision}'') \<and> \<not> sublist ph a
     \<longrightarrow> replace (a @ ph @ b) ph rep = a @ getSubstitution ph a b rep @ b)
   \<and> ((ph = ''{version}'' \<or> ph = ''{revision}'') \<and> sublist ph p
     \<longrightarrow> (\<exists>p' q'. tagName (p @ ph @ q) version revision = p' @ ph @ q'
            \<and> (q' = q \<or> (\<exists>a b z. (q = a @ ''{version}'' @ b \<or> q = a @ ''{revision}'' @ b)
                                   \<and> q' = a @ z @ b)))
       \<and> (\<exists>p' q'. tagPattern (p @ ph @ q) version = p' @ ph @ toLowerCase q'
            \<and> (q' = q @ ''$''
                \<or> (\<exists>a b z. (q @ ''$'' = a @ ''{version}'' @ b \<or> q @ ''$'' = a @ ''{revision}'' @ b)
                            \<and> q' = a @ z @ b))))"
proof (intro conjI impI)
  assume "(ph = ''{version}'' \<or> ph = ''{revision}'') \<and> \<not> sublist ph a"
  then show "replace (a @ ph @ b) ph rep = a @ getSubstitution ph a b rep @ b"
    using replace_first by blast
next
  assume a: "(ph = ''{version}'' \<or> ph = ''{revision}'') \<and> sublist ph p"
  then have ph: "ph = ''{version}'' \<or> ph = ''{revision}''" and sub: "sublist ph p" by simp_all
  from two_replacements [OF ph sub, of q version "toString revision"]
  show "\<exists>p' q'. tagName (p @ ph @ q) version revision = p' @ ph @ q'
          \<and> (q' = q \<or> (\<exists>a b z. (q = a @ ''{version}'' @ b \<or> q = a @ ''{revision}'' @ b)
                                 \<and> q' = a @ z @ b))"
    by (simp add: tagName_def)
next
  assume a: "(ph = ''{version}'' \<or> ph = ''{revision}'') \<and> sublist ph p"
  then have ph: "ph = ''{version}'' \<or> ph = ''{revision}''" and sub: "sublist ph p" by simp_all
  from sub have "sublist ph (''^'' @ p)" by (rule sublist_right)
  from two_replacements [OF ph this, of "q @ ''$''" version "''(?<revision>[0-9]+)''"]
  obtain p' q' where pq: "replace (replace ((''^'' @ p) @ ph @ q @ ''$'') ''{version}'' version)
        ''{revision}'' ''(?<revision>[0-9]+)'' = p' @ ph @ q'"
      "q' = q @ ''$''
        \<or> (\<exists>a b z. (q @ ''$'' = a @ ''{version}'' @ b \<or> q @ ''$'' = a @ ''{revision}'' @ b)
                   \<and> q' = a @ z @ b)"
    by blast
  from pq(1) have "tagPattern (p @ ph @ q) version = toLowerCase p' @ ph @ toLowerCase q'"
    by (simp add: tagPattern_def toLowerCase_append toLowerCase_placeholder [OF ph])
  with pq(2) show "\<exists>p' q'. tagPattern (p @ ph @ q) version = p' @ ph @ toLowerCase q'
          \<and> (q' = q @ ''$''
              \<or> (\<exists>a b z. (q @ ''$'' = a @ ''{version}'' @ b \<or> q @ ''$'' = a @ ''{revision}'' @ b)
                          \<and> q' = a @ z @ b))"
    by blast
qed

theorem later_placeholders_stay_witness:
  "\<not> sublist ''{version}'' ''v''
   \<and> replace (''v'' @ ''{version}'' @ ''-{version}'') ''{version}'' ''1.2.3'' = ''v1.2.3-{version}''
   \<and> sublist ''{revision}'' ''{version}-{revision}-''
   \<and> tagName (''{version}-{revision}-'' @ ''{revision}'' @ ''-{version}'') ''1.2.3'' (Num 4)
       = ''1.2.3-4-'' @ ''{revision}'' @ ''-{version}''
   \<and> tagPattern (''{version}-{revision}-'' @ ''{revision}'' @ ''-{version}'') ''1.2.3''
       = ''^1.2.3-(?<revision>[0-9]+)-'' @ ''{revision}'' @ toLowerCase ''-{version}$''
   \<and> (\<exists>p' q'. tagName (''{version}-{revision}-'' @ ''{revision}'' @ ''-{version}'') ''1.2.3'' (Num 4)
                 = p' @ ''{revision}'' @ q'
          \<and> (q' = ''-{version}''
              \<or> (\<exists>a b z. (''-{version}'' = a @ ''{version}'' @ b \<or> ''-{version}'' = a @ ''{revision}'' @ b)
                          \<and> q' = a @ z @ b)))"
proof -
  have h1: "(''{version}'' = ''{version}'' \<or> ''{version}'' = ''{revision}'')
      \<and> \<not> sublist ''{version}'' ''v''"
    by (simp add: sublist_code)
  have h2: "(''{revision}'' = ''{version}'' \<or> ''{revision}'' = ''{revision}'')
      \<and> sublist ''{revision}'' ''{version}-{revision}-''"
    by (simp add: sublist_code)
  have e1: "replace (''v'' @ ''{version}'' @ ''-{version}'') ''{version}'' ''1.2.3''
      = ''v'' @ getSubstitution ''{version}'' ''v'' ''-{version}'' ''1.2.3'' @ ''-{version}''"
    using later_placeholders_stay
      [of "''{version}''" "''v''" "''-{version}''" "''1.2.3''" "[]" "[]" "[]" "Num 0"] h1
    by blast
  have e2: "\<exists>p' q'. tagName (''{version}-{revision}-'' @ ''{revision}'' @ ''-{version}'') ''1.2.3'' (Num 4)
                 = p' @ ''{revision}'' @ q'
          \<and> (q' = ''-{version}''
              \<or> (\<exists>a b z. (''-{version}'' = a @ ''{version}'' @ b \<or> ''-{version}'' = a @ ''{revision}'' @ b)
                          \<and> q' = a @ z @ b))"
    using later_placeholders_stay
      [of "''{revision}''" "[]" "[]" "[]" "''{version}-{revision}-''" "''-{version}''" "''1.2.3''" "Num 4"] h2
    by blast
  have v1: "''v'' @ getSubstitution ''{version}'' ''v'' ''-{version}'' ''1.2.3'' @ ''-{version}''
      = ''v1.2.3-{version}''"
    by simp
  have v2: "tagName (''{version}-{revision}-'' @ ''{revision}'' @ ''-{version}'') ''1.2.3'' (Num 4)
       = ''1.2.3-4-'' @ ''{revision}'' @ ''-{version}''"
    by (simp add: tagName_def js_string_eval natToString_def digitsOf.simps digitChar_def Let_def)
  have v3: "tagPattern (''{version}-{revision}-'' @ ''{revision}'' @ ''-{version}'') ''1.2.3''
       = ''^1.2.3-(?<revision>[0-9]+)-'' @ ''{revision}'' @ toLowerCase ''-{version}$''"
    by (simp add: tagPattern_def js_string_eval)
  from h1 h2 e1 e2 v1 v2 v3 show ?thesis by (simp only:) blast
qed

section \<open>The next revision\<close>

text \<open>Numbers are doubles: every integer up to \<open>2 ^ 53\<close> is one, and the sum of line 116 is
  exact as long as it stays in that range.\<close>

lemma bits_2_53: "bits (2 ^ 53) = 54"
  by (simp add: bits.simps)

lemma roundToDouble_exact: "n \<le> 2 ^ 53 \<Longrightarrow> roundToDouble n = n"
proof (cases "n < 2 ^ 53")
  case True
  then show ?thesis by (simp add: roundToDouble_def)
next
  case False
  assume "n \<le> 2 ^ 53"
  with False have n: "n = 2 ^ 53" by simp
  show ?thesis unfolding n roundToDouble_def bits_2_53 by (simp add: Let_def)
qed

lemma toNumber_exact: "\<bar>x\<bar> \<le> 2 ^ 53 \<Longrightarrow> toNumber x = Num x"
proof -
  assume a: "\<bar>x\<bar> \<le> 2 ^ 53"
  then have "nat \<bar>x\<bar> \<le> 2 ^ 53" by (simp add: nat_le_iff)
  then have r: "roundToDouble (nat \<bar>x\<bar>) = nat \<bar>x\<bar>" by (rule roundToDouble_exact)
  have "(2::nat) ^ 53 < 2 ^ 1024" by simp
  with \<open>nat \<bar>x\<bar> \<le> 2 ^ 53\<close> have "\<not> (2::nat) ^ 1024 \<le> nat \<bar>x\<bar>" by linarith
  with r show ?thesis by (simp add: toNumber_def Let_def)
qed

text \<open>
  Claim C1. The tag format contains the placeholder \<open>{revision}\<close>, the search has found a tag,
  and the revision captured from its name parses as the integer \<open>N\<close>. When \<open>N\<close> is below
  \<open>2 ^ 53\<close>, the revision computed at lines 115 to 117 is exactly \<open>N + 1\<close>. The bound is
  needed: the sum is a sum of doubles, and \<open>2 ^ 53 + 1\<close> is rounded to \<open>2 ^ 53\<close>.
\<close>

theorem revision_is_incremented:
  assumes "sublist ''{revision}'' (tag_format env)"
    and "findTag env version = Inr (tags, Some m)"
    and "groups (mt_match m) = Some g"
    and "group g ''revision'' = Some s"
    and "parseInt (Some s) = Num N"
    and "0 \<le> N" and "N < 2 ^ 53"
  shows "tagRevision (Some m) = Num (N + 1)"
proof -
  from assms(6,7) have "\<bar>N + 1\<bar> \<le> 2 ^ 53" by simp
  then have "toNumber (N + 1) = Num (N + 1)" by (rule toNumber_exact)
  with assms(3,4,5) show ?thesis by (simp add: tagRevision_def)
qed

theorem revision_is_incremented_witness:
  "sublist ''{revision}'' (tag_format (exampleEnv ''v{version}-{revision}'' ''2.3.0'' twoTags))
   \<and> findTag (exampleEnv ''v{version}-{revision}'' ''2.3.0'' twoTags) ''2.3.0''
       = Inr (twoTags, Some revisionMatch)
   \<and> groups (mt_match revisionMatch) = Some [(''revision'', Some ''1'')]
   \<and> group [(''revision'', Some ''1'')] ''revision'' = Some ''1''
   \<and> parseInt (Some ''1'') = Num 1
   \<and> (0::int) \<le> 1 \<and> (1::int) < 2 ^ 53
   \<and> tagRevision (Some revisionMatch) = Num (1 + 1)"
proof -
  let ?env = "exampleEnv ''v{version}-{revision}'' ''2.3.0'' twoTags"
  have h1: "sublist ''{revision}'' (tag_format ?env)"
    by (simp add: example_fields sublist_code)
  have h3: "groups (mt_match revisionMatch) = Some [(''revision'', Some ''1'')]"
    by (simp add: revisionMatch_def)
  have h4: "group [(''revision'', Some ''1'')] ''revision'' = Some ''1''"
    by (simp add: group_def)
  have h5: "parseInt (Some ''1'') = Num 1"
    by (simp add: parseInt_def isWhiteSpace_def digitValue_def radixValue_def toNumber_def
          roundToDouble_def Let_def)
  have h6: "(0::int) \<le> 1" and h7: "(1::int) < 2 ^ 53" by simp_all
  from revision_is_incremented [OF h1 example_findTag_revision h3 h4 h5 h6 h7]
  have "tagRevision (Some revisionMatch) = Num (1 + 1)" .
  with h1 h3 h4 h5 h6 h7 example_findTag_revision show ?thesis by blast
qed

subsection \<open>A revision beyond the integers that are exact\<close>

text \<open>
  The tag \<open>v1.0.0-9007199254740992\<close> matches the pattern of the format
  \<open>v{version}-{revision}\<close>, and its revision parses as \<open>2 ^ 53\<close>. The revision computed from
  it is \<open>2 ^ 53\<close> again.
\<close>

lemma example_findTag_big:
  "findTag (exampleEnv ''v{version}-{revision}'' ''1.0.0'' bigTags) ''1.0.0'' =
     Inr (bigTags, Some bigMatch)"
  by (simp add: findTag_def getRepoTags_def example_fields tagPattern_def js_regexp_eval
        js_string_eval bigTags_def bigMatch_def)

lemma parseInt_2_53: "parseInt (Some ''9007199254740992'') = Num 9007199254740992"
  by (simp add: parseInt_def isWhiteSpace_def digitValue_def radixValue_def toNumber_def
        roundToDouble_def bits.simps Let_def)

lemma tagRevision_big: "tagRevision (Some bigMatch) = Num 9007199254740992"
  by (simp add: tagRevision_def bigMatch_def group_def parseInt_2_53)
     (simp add: toNumber_def roundToDouble_def bits.simps Let_def)

theorem revision_increment_counterexample:
  "sublist ''{revision}'' (tag_format (exampleEnv ''v{version}-{revision}'' ''1.0.0'' bigTags))
   \<and> findTag (exampleEnv ''v{version}-{revision}'' ''1.0.0'' bigTags) ''1.0.0''
       = Inr (bigTags, Some bigMatch)
   \<and> groups (mt_match bigMatch) = Some [(''revision'', Some ''9007199254740992'')]
   \<and> group [(''revision'', Some ''9007199254740992'')] ''revision'' = Some ''9007199254740992''
   \<and> parseInt (Some ''9007199254740992'') = Num 9007199254740992
   \<and> tagRevision (Some bigMatch) = Num 9007199254740992
   \<and> tagRevision (Some bigMatch) \<noteq> Num (9007199254740992 + 1)"
  by (simp add: example_fields example_findTag_big parseInt_2_53 tagRevision_big sublist_code
        group_def)
     (simp add: bigMatch_def)

section \<open>The search for a matching tag\<close>

lemma searchMatchingTag_find:
  "searchMatchingTag tags rx =
     (case find (\<lambda>t. rx (toLowerCase (trim (name t))) \<noteq> None) tags of
        None \<Rightarrow> None
      | Some t \<Rightarrow> Some \<lparr>mt_name = name t, mt_sha = commit_sha t,
                         mt_match = the (rx (toLowerCase (trim (name t))))\<rparr>)"
  by (induction tags) (auto split: option.splits)

text \<open>A replacement of a placeholder keeps a first character that is no opening brace and
  a last character that is no closing brace.\<close>

lemma replace_keeps_ends:
  assumes ph: "ph = ''{version}'' \<or> ph = ''{revision}''"
    and c: "c \<noteq> CHR ''{''" and d: "d \<noteq> CHR ''}''"
  shows "\<exists>m'. replace (c # m @ [d]) ph r = c # m' @ [d]"
proof (cases "indexOf (c # m @ [d]) ph")
  case None
  then show ?thesis by (simp add: replace_none)
next
  case (Some k)
  let ?s = "c # m @ [d]"
  from indexOf_SomeD [OF Some] have occ: "prefix ph (drop k ?s)" by simp
  have first: "?s ! (k + 0) = ph ! 0"
    by (rule prefix_nth(1) [OF occ placeholder_props(3) [OF ph]])
  have k0: "k \<noteq> 0"
  proof
    assume "k = 0"
    with first placeholder_first [OF ph] c show False by simp
  qed
  have l: "length ph - 1 < length ph" using placeholder_props(3) [OF ph] by simp
  have lastc: "ph ! (length ph - 1) = CHR ''}''" using ph by auto
  from prefix_nth [OF occ l] have e: "?s ! (k + (length ph - 1)) = ph ! (length ph - 1)"
    and b: "k + (length ph - 1) < length ?s" by simp_all
  have kl: "k + length ph \<le> Suc (length m)"
  proof (rule ccontr)
    assume "\<not> k + length ph \<le> Suc (length m)"
    with b l have "k + (length ph - 1) = Suc (length m)" by simp
    then have "?s ! (k + (length ph - 1)) = d" by (simp add: nth_append)
    with e lastc d show False by simp
  qed
  obtain k' where k': "k = Suc k'" using k0 by (cases k) auto
  let ?z = "getSubstitution ph (take k ?s) (drop (k + length ph) ?s) r"
  have "take k ?s = c # take k' m" using k' kl by simp
  moreover have "drop (k + length ph) ?s = drop (k' + length ph) m @ [d]" using k' kl by simp
  ultimately have "replace ?s ph r = c # (take k' m @ ?z @ drop (k' + length ph) m) @ [d]"
    using replace_at [OF Some, of r] by simp
  then show ?thesis by blast
qed

lemma tagPattern_anchored: "\<exists>body. tagPattern tagFormat version = ''^'' @ body @ ''$''"
proof -
  obtain m1 where m1: "replace (CHR ''^'' # tagFormat @ [CHR ''$'']) ''{version}'' version
      = CHR ''^'' # m1 @ [CHR ''$'']"
    using replace_keeps_ends [of "''{version}''" "CHR ''^''" "CHR ''$''" tagFormat version]
    by auto
  obtain m2 where m2: "replace (CHR ''^'' # m1 @ [CHR ''$'']) ''{revision}''
      ''(?<revision>[0-9]+)'' = CHR ''^'' # m2 @ [CHR ''$'']"
    using replace_keeps_ends [of "''{revision}''" "CHR ''^''" "CHR ''$''" m1 "''(?<revision>[0-9]+)''"]
    by auto
  have "tagPattern tagFormat version = ''^'' @ toLowerCase m2 @ ''$''"
    using m1 m2 by (simp add: tagPattern_def toLowerCase_def toLowerChar_def isUpperChar_def)
  then show ?thesis by blast
qed

lemma example_tagPattern_1: "tagPattern ''v{version}'' ''1.0.0'' = ''^v1.0.0$''"
  by (simp add: tagPattern_def js_string_eval)

lemma example_search_spaced:
  "searchMatchingTag spacedTag (projr (jsRegExp ''^v1.0.0$'' [])) =
     Some \<lparr>mt_name = '' V1.0.0 '', mt_sha = ''def456'',
           mt_match = \<lparr>matched = ''v1.0.0'', groups = None\<rparr>\<rparr>"
  by (simp add: spacedTag_def js_regexp_eval js_string_eval)

text \<open>
  Claim C3. The search returns the first tag of the list, in the order of the list, whose
  trimmed and lower-cased name the regular expression matches, with the name and the SHA of
  that tag as they are listed, and returns nothing when the expression matches no tag of the
  list. The tag pattern begins with \<open>^\<close> and ends with \<open>$\<close>. The tag \<open>" V1.0.0 "\<close> is found by
  the pattern of the format \<open>v{version}\<close> and the version 1.0.0. What stands between the two
  anchors is read as a regular expression, so the anchors do not make every match a match of
  the whole name.
\<close>

theorem search_returns_first_match:
  "searchMatchingTag tags rx =
     (case find (\<lambda>t. rx (toLowerCase (trim (name t))) \<noteq> None) tags of
        None \<Rightarrow> None
      | Some t \<Rightarrow> Some \<lparr>mt_name = name t, mt_sha = commit_sha t,
                         mt_match = the (rx (toLowerCase (trim (name t))))\<rparr>)
   \<and> (\<exists>body. tagPattern tagFormat version = ''^'' @ body @ ''$'')
   \<and> searchMatchingTag spacedTag (projr (jsRegExp (tagPattern ''v{version}'' ''1.0.0'') [])) =
       Some \<lparr>mt_name = '' V1.0.0 '', mt_sha = ''def456'',
             mt_match = \<lparr>matched = ''v1.0.0'', groups = None\<rparr>\<rparr>"
  using searchMatchingTag_find tagPattern_anchored example_search_spaced
  by (simp only: example_tagPattern_1)

theorem search_returns_first_match_witness:
  "searchMatchingTag twoTags (projr (jsRegExp ''^v2.3.0-(?<revision>[0-9]+)$'' [])) =
     Some \<lparr>mt_name = ''v2.3.0-1'', mt_sha = ''def456'',
           mt_match = \<lparr>matched = ''v2.3.0-1'', groups = Some [(''revision'', Some ''1'')]\<rparr>\<rparr>
   \<and> searchMatchingTag twoTags (projr (jsRegExp ''^v9.9.9$'' [])) = None
   \<and> (\<exists>body. tagPattern ''v{version}-{revision}'' ''2.3.0'' = ''^'' @ body @ ''$'')"
  using search_returns_first_match
          [of twoTags "projr (jsRegExp ''^v2.3.0-(?<revision>[0-9]+)$'' [])"
              "''v{version}-{revision}''" "''2.3.0''"]
        search_returns_first_match
          [of twoTags "projr (jsRegExp ''^v9.9.9$'' [])" "''v{version}-{revision}''" "''2.3.0''"]
  by (simp add: twoTags_def js_regexp_eval js_string_eval)

subsection \<open>A tag format with an alternative\<close>

text \<open>
  With the tag format \<open>v{version}|x\<close> and the version 2.3.0 the pattern is \<open>^v2.3.0|x$\<close>: the
  first alternative has no anchor at its end. The tag \<open>v2.3.0-old\<close> is found, and what the
  expression matched is the beginning \<open>v2.3.0\<close> of its name.
\<close>

lemma example_tagPattern_alt: "tagPattern ''v{version}|x'' ''2.3.0'' = ''^v2.3.0|x$''"
  by (simp add: tagPattern_def js_string_eval)

theorem search_exact_match_counterexample:
  "tagPattern ''v{version}|x'' ''2.3.0'' = ''^v2.3.0|x$''
   \<and> searchMatchingTag oldTag (projr (jsRegExp ''^v2.3.0|x$'' [])) =
       Some \<lparr>mt_name = ''v2.3.0-old'', mt_sha = ''def456'',
             mt_match = \<lparr>matched = ''v2.3.0'', groups = None\<rparr>\<rparr>
   \<and> toLowerCase (trim ''v2.3.0-old'') = ''v2.3.0-old''
   \<and> ''v2.3.0'' \<noteq> ''v2.3.0-old''"
  by (simp add: example_tagPattern_alt oldTag_def js_regexp_eval js_string_eval)

section \<open>The revision without the placeholder\<close>

subsection \<open>Patterns without a named group\<close>























subsection \<open>The tag pattern of a format without the placeholder\<close>















subsection \<open>A tag format with a named group of its own\<close>


end
